theory Spec2Isabelle
  imports Complex_Main
begin

section \<open>Data tile indexer: a shallow embedding of \<^verbatim>\<open>DataTileIndexer.js\<close>\<close>

text \<open>
  The indexer analyses client queries (\<^verbatim>\<open>getBaseTable\<close>, \<^verbatim>\<open>getIndexColumns\<close>), turns the
  active selection clause into an active view (\<^verbatim>\<open>binInterval\<close>, \<^verbatim>\<open>binFunction\<close>,
  \<^verbatim>\<open>getActiveView\<close>), builds one index table per client (\<^verbatim>\<open>index\<close>, \<^verbatim>\<open>createIndex\<close>) and
  answers later filter changes from those tables (\<^verbatim>\<open>update\<close>, \<^verbatim>\<open>updateClient\<close>).

  JavaScript values are modelled by what the code reads from them. A thrown exception
  (for an \<^verbatim>\<open>async\<close> method: the rejection of the returned promise) is a value of type
  \<open>error\<close>. The query builder, the selection, the executor and the two helpers imported
  from \<^verbatim>\<open>./util\<close> are not part of the file; they are parameters of the model.
\<close>

subsection \<open>Strings\<close>

definition dq :: string where
  "dq = [CHR 0x22]"

definition lower_letters :: string where
  "lower_letters = ''abcdefghijklmnopqrstuvwxyz''"

definition upper_letters :: string where
  "upper_letters = ''ABCDEFGHIJKLMNOPQRSTUVWXYZ''"

text \<open>
  \<^verbatim>\<open>String.prototype.toUpperCase\<close> on the ASCII letters; every other character is kept.
  Aggregate names are taken to be ASCII identifiers.
\<close>

definition toUpperCase_char :: "char \<Rightarrow> char" where
  "toUpperCase_char c =
     (case map_of (zip lower_letters upper_letters) c of None \<Rightarrow> c | Some u \<Rightarrow> u)"

definition toUpperCase :: "string \<Rightarrow> string" where
  "toUpperCase s = map toUpperCase_char s"

definition toLowerCase_char :: "char \<Rightarrow> char" where
  "toLowerCase_char c =
     (case map_of (zip upper_letters lower_letters) c of None \<Rightarrow> c | Some l \<Rightarrow> l)"

definition toLowerCase :: "string \<Rightarrow> string" where
  "toLowerCase s = map toLowerCase_char s"

text \<open>Two names are the same up to letter case when their lower-case forms coincide.\<close>

definition same_ignoring_case :: "string \<Rightarrow> string \<Rightarrow> bool" where
  "same_ignoring_case a b = (toLowerCase a = toLowerCase b)"

subsection \<open>Queries\<close>

datatype error = TypeError

text \<open>One entry of \<^verbatim>\<open>q.select()\<close>: the output name \<^verbatim>\<open>as\<close> and \<^verbatim>\<open>expr.aggregate\<close>
  (\<open>None\<close> where the expression has no aggregate function).\<close>

record select_item =
  item_as :: string
  aggregate :: "string option"

text \<open>
  A query object, by the members the indexer reads:
  \<^item> \<open>q_select\<close>: \<open>None\<close> when the object has no \<^verbatim>\<open>select\<close> method (a set operation),
    otherwise the result of \<^verbatim>\<open>select()\<close>;
  \<^item> \<open>q_from\<close>: the result of \<^verbatim>\<open>from()\<close>, each entry by its \<^verbatim>\<open>.from.table\<close>
    (\<open>None\<close> where that is \<^verbatim>\<open>undefined\<close>);
  \<^item> \<open>q_groupby\<close>: \<open>None\<close> when the object has no \<^verbatim>\<open>groupby\<close> method, otherwise the
    \<^verbatim>\<open>.column\<close> of every entry of \<^verbatim>\<open>groupby()\<close>;
  \<^item> \<open>subqueries\<close>: the \<^verbatim>\<open>subqueries\<close> getter.
\<close>

datatype query =
  Query (q_select: "select_item list option")
        (q_from: "string option list")
        (q_groupby: "string option list option")
        (subqueries: "query list")

text \<open>What \<^verbatim>\<open>getBaseTable\<close> returns: a table name, \<^verbatim>\<open>undefined\<close> or \<^verbatim>\<open>NaN\<close>.\<close>

datatype base_table = Table string | Undefined | NaN

text \<open>\<^verbatim>\<open>a !== b\<close>: \<^verbatim>\<open>NaN\<close> differs from everything, itself included.\<close>

definition strict_neq :: "base_table \<Rightarrow> base_table \<Rightarrow> bool" where
  "strict_neq a b = (a = NaN \<or> b = NaN \<or> a \<noteq> b)"

text \<open>Truthiness: \<^verbatim>\<open>undefined\<close>, \<^verbatim>\<open>NaN\<close> and the empty string are falsy.\<close>

fun truthy :: "base_table \<Rightarrow> bool" where
  "truthy (Table t) = (t \<noteq> [])"
| "truthy Undefined = False"
| "truthy NaN = False"

fun from_table :: "string option \<Rightarrow> base_table" where
  "from_table None = Undefined"
| "from_table (Some t) = Table t"

text \<open>
  \<^verbatim>\<open>getBaseTable\<close>. \<open>branches\<close> is the part after the \<^verbatim>\<open>if (query.select)\<close> block:
  \<^verbatim>\<open>getBaseTable(subq[0])\<close> reads \<^verbatim>\<open>undefined.subqueries\<close> when there is no subquery, which
  throws. \<open>scan_rest\<close> is the \<^verbatim>\<open>for\<close> loop over \<^verbatim>\<open>subq[1..]\<close>.
\<close>

fun getBaseTable :: "query \<Rightarrow> error + base_table"
and branches :: "query list \<Rightarrow> error + base_table"
and scan_rest :: "base_table \<Rightarrow> query list \<Rightarrow> error + base_table" where
  "getBaseTable (Query sel frm grp subq) =
     (case sel of
        Some _ \<Rightarrow>
          (case frm of
             [] \<Rightarrow> Inr Undefined
           | f # _ \<Rightarrow> if subq = [] then Inr (from_table f) else branches subq)
      | None \<Rightarrow> branches subq)"
| "branches [] = Inl TypeError"
| "branches (q # qs) =
     (case getBaseTable q of Inl e \<Rightarrow> Inl e | Inr base \<Rightarrow> scan_rest base qs)"
| "scan_rest base [] = Inr base"
| "scan_rest base (q # qs) =
     (case getBaseTable q of
        Inl e \<Rightarrow> Inl e
      | Inr frm \<Rightarrow>
          if frm = Undefined then scan_rest base qs
          else if strict_neq frm base then Inr NaN
          else scan_rest base qs)"

subsection \<open>Query shape analysis\<close>

record client =
  cid :: nat
  client_query :: query
  filterIndexable :: bool

text \<open>
  \<open>cid\<close> is the identity of the client object (the key of the index map),
  \<open>client_query\<close> the result of \<^verbatim>\<open>client.query()\<close> without a filter.

  The result of \<^verbatim>\<open>getIndexColumns\<close>: \<^verbatim>\<open>null\<close>, the early exit \<^verbatim>\<open>{ from: NaN }\<close>, or the
  full object. \<open>ic_aggr\<close> is the array of one-key objects \<^verbatim>\<open>{ [as]: expr(...) }\<close>,
  \<open>ic_count\<close> the object that is empty or holds the one count column.
\<close>

datatype index_columns =
  Null
| EarlyExit
| Columns (ic_aggr: "(string \<times> string) list")
          (ic_dims: "string list")
          (ic_count: "(string \<times> string) list")
          (ic_from: base_table)

definition sum_expr :: "string \<Rightarrow> string" where
  "sum_expr a = ''SUM('' @ dq @ a @ dq @ '')::DOUBLE''"

definition avg_expr :: "string \<Rightarrow> string \<Rightarrow> string" where
  "avg_expr a c = ''(SUM('' @ dq @ a @ dq @ '' * '' @ c @ '') / SUM('' @ c @ ''))::DOUBLE''"

definition max_expr :: "string \<Rightarrow> string" where
  "max_expr a = ''MAX('' @ dq @ a @ dq @ '')''"

definition min_expr :: "string \<Rightarrow> string" where
  "min_expr a = ''MIN('' @ dq @ a @ dq @ '')''"

text \<open>The \<^verbatim>\<open>for\<close> loop over \<^verbatim>\<open>q.select()\<close>, with \<^verbatim>\<open>aggr\<close>, \<^verbatim>\<open>dims\<close> and \<^verbatim>\<open>count\<close> as
  accumulators; \<open>None\<close> is the \<^verbatim>\<open>return null\<close> of the default branch.\<close>

fun select_loop ::
  "string option list \<Rightarrow> select_item list \<Rightarrow> (string \<times> string) list \<Rightarrow> string list \<Rightarrow>
   string option \<Rightarrow> ((string \<times> string) list \<times> string list \<times> string option) option" where
  "select_loop g [] aggr dims cnt = Some (aggr, dims, cnt)"
| "select_loop g (it # rest) aggr dims cnt =
     (let a = item_as it; k = map_option toUpperCase (aggregate it) in
      if k = Some ''COUNT'' \<or> k = Some ''SUM'' then
        select_loop g rest (aggr @ [(a, sum_expr a)]) dims cnt
      else if k = Some ''AVG'' then
        select_loop g rest (aggr @ [(a, avg_expr a ''_count_'')]) dims (Some ''_count_'')
      else if k = Some ''MAX'' then
        select_loop g rest (aggr @ [(a, max_expr a)]) dims cnt
      else if k = Some ''MIN'' then
        select_loop g rest (aggr @ [(a, min_expr a)]) dims cnt
      else if Some a \<in> set g then
        select_loop g rest aggr (dims @ [a]) cnt
      else None)"

definition getIndexColumns :: "client \<Rightarrow> error + index_columns" where
  "getIndexColumns c =
     (let q = client_query c in
      case getBaseTable q of
        Inl e \<Rightarrow> Inl e
      | Inr frm \<Rightarrow>
          if \<not> truthy frm \<or> q_groupby q = None \<or> \<not> filterIndexable c then Inr EarlyExit
          else
            (case q_groupby q of
               None \<Rightarrow> Inr EarlyExit
             | Some g \<Rightarrow>
                 (case q_select q of
                    None \<Rightarrow> Inl TypeError
                  | Some items \<Rightarrow>
                      (case select_loop g items [] [] None of
                         None \<Rightarrow> Inr Null
                       | Some (aggr, dims, cnt) \<Rightarrow>
                           Inr (Columns aggr dims
                                  (case cnt of None \<Rightarrow> [] | Some n \<Rightarrow> [(n, ''COUNT(*)'')])
                                  frm)))))"

text \<open>
  The analyzer's contract, written out independently of the code above: the five aggregate
  kinds, recognised up to letter case, and the text by which each is re-aggregated. COUNT
  and SUM are summed, AVG is the count-weighted sum over the sum of the counts, MIN and MAX
  are applied again. \<open>CHR 0x22\<close> is the double quote around the column name.
\<close>

datatype agg_kind = KCount | KSum | KAvg | KMin | KMax

definition recognised :: "string option \<Rightarrow> agg_kind option" where
  "recognised n =
     (case n of
        None \<Rightarrow> None
      | Some s \<Rightarrow>
          if same_ignoring_case s ''count'' then Some KCount
          else if same_ignoring_case s ''sum'' then Some KSum
          else if same_ignoring_case s ''avg'' then Some KAvg
          else if same_ignoring_case s ''min'' then Some KMin
          else if same_ignoring_case s ''max'' then Some KMax
          else None)"

fun reaggregate :: "agg_kind \<Rightarrow> string \<Rightarrow> string" where
  "reaggregate KCount a = ''SUM('' @ [CHR 0x22] @ a @ [CHR 0x22] @ '')::DOUBLE''"
| "reaggregate KSum a = ''SUM('' @ [CHR 0x22] @ a @ [CHR 0x22] @ '')::DOUBLE''"
| "reaggregate KAvg a =
     ''(SUM('' @ [CHR 0x22] @ a @ [CHR 0x22] @ '' * _count_) / SUM(_count_))::DOUBLE''"
| "reaggregate KMin a = ''MIN('' @ [CHR 0x22] @ a @ [CHR 0x22] @ '')''"
| "reaggregate KMax a = ''MAX('' @ [CHR 0x22] @ a @ [CHR 0x22] @ '')''"

definition spec_entry :: "select_item \<Rightarrow> (string \<times> string) list" where
  "spec_entry it =
     (case recognised (aggregate it) of
        None \<Rightarrow> []
      | Some k \<Rightarrow> [(item_as it, reaggregate k (item_as it))])"


text \<open>A selected column that is not one of the five recognised aggregates.\<close>

definition plain :: "select_item \<Rightarrow> bool" where
  "plain it = (recognised (aggregate it) = None)"

subsection \<open>Numbers\<close>

text \<open>
  A JavaScript number is a finite value, an infinity or \<^verbatim>\<open>NaN\<close>. The operations follow
  ECMAScript on the special values; on finite values they are the exact real operations
  (no rounding, no overflow), and the sign of zero is not kept.
\<close>

datatype jsnum = Finite real | PosInfinity | NegInfinity | NotANumber

fun Math_min :: "jsnum \<Rightarrow> jsnum \<Rightarrow> jsnum" where
  "Math_min NotANumber y = NotANumber"
| "Math_min x NotANumber = NotANumber"
| "Math_min NegInfinity y = NegInfinity"
| "Math_min x NegInfinity = NegInfinity"
| "Math_min PosInfinity y = y"
| "Math_min x PosInfinity = x"
| "Math_min (Finite x) (Finite y) = Finite (min x y)"

fun Math_max :: "jsnum \<Rightarrow> jsnum \<Rightarrow> jsnum" where
  "Math_max NotANumber y = NotANumber"
| "Math_max x NotANumber = NotANumber"
| "Math_max PosInfinity y = PosInfinity"
| "Math_max x PosInfinity = PosInfinity"
| "Math_max NegInfinity y = y"
| "Math_max x NegInfinity = x"
| "Math_max (Finite x) (Finite y) = Finite (max x y)"

fun Math_abs :: "jsnum \<Rightarrow> jsnum" where
  "Math_abs (Finite x) = Finite \<bar>x\<bar>"
| "Math_abs PosInfinity = PosInfinity"
| "Math_abs NegInfinity = PosInfinity"
| "Math_abs NotANumber = NotANumber"

fun Math_sign :: "jsnum \<Rightarrow> jsnum" where
  "Math_sign (Finite x) = Finite (sgn x)"
| "Math_sign PosInfinity = Finite 1"
| "Math_sign NegInfinity = Finite (- 1)"
| "Math_sign NotANumber = NotANumber"

fun Math_log :: "jsnum \<Rightarrow> jsnum" where
  "Math_log (Finite x) = (if x < 0 then NotANumber else if x = 0 then NegInfinity else Finite (ln x))"
| "Math_log PosInfinity = PosInfinity"
| "Math_log NegInfinity = NotANumber"
| "Math_log NotANumber = NotANumber"

fun Math_log1p :: "jsnum \<Rightarrow> jsnum" where
  "Math_log1p (Finite x) =
     (if x < - 1 then NotANumber else if x = - 1 then NegInfinity else Finite (ln (1 + x)))"
| "Math_log1p PosInfinity = PosInfinity"
| "Math_log1p NegInfinity = NotANumber"
| "Math_log1p NotANumber = NotANumber"

fun Math_sqrt :: "jsnum \<Rightarrow> jsnum" where
  "Math_sqrt (Finite x) = (if x < 0 then NotANumber else Finite (sqrt x))"
| "Math_sqrt PosInfinity = PosInfinity"
| "Math_sqrt NegInfinity = NotANumber"
| "Math_sqrt NotANumber = NotANumber"

fun js_neg :: "jsnum \<Rightarrow> jsnum" where
  "js_neg (Finite x) = Finite (- x)"
| "js_neg PosInfinity = NegInfinity"
| "js_neg NegInfinity = PosInfinity"
| "js_neg NotANumber = NotANumber"

fun js_sub :: "jsnum \<Rightarrow> jsnum \<Rightarrow> jsnum" where
  "js_sub NotANumber y = NotANumber"
| "js_sub x NotANumber = NotANumber"
| "js_sub (Finite x) (Finite y) = Finite (x - y)"
| "js_sub PosInfinity PosInfinity = NotANumber"
| "js_sub NegInfinity NegInfinity = NotANumber"
| "js_sub PosInfinity y = PosInfinity"
| "js_sub NegInfinity y = NegInfinity"
| "js_sub (Finite x) y = js_neg y"

fun js_mul :: "jsnum \<Rightarrow> jsnum \<Rightarrow> jsnum" where
  "js_mul NotANumber y = NotANumber"
| "js_mul x NotANumber = NotANumber"
| "js_mul (Finite x) (Finite y) = Finite (x * y)"
| "js_mul (Finite x) y = (if x = 0 then NotANumber else if 0 < x then y else js_neg y)"
| "js_mul x (Finite y) = (if y = 0 then NotANumber else if 0 < y then x else js_neg x)"
| "js_mul PosInfinity y = y"
| "js_mul NegInfinity y = js_neg y"

fun js_div :: "jsnum \<Rightarrow> jsnum \<Rightarrow> jsnum" where
  "js_div NotANumber y = NotANumber"
| "js_div x NotANumber = NotANumber"
| "js_div (Finite x) (Finite y) =
     (if y = 0 then (if x = 0 then NotANumber else if 0 < x then PosInfinity else NegInfinity)
      else Finite (x / y))"
| "js_div (Finite x) y = Finite 0"
| "js_div x (Finite y) = (if 0 \<le> y then x else js_neg x)"
| "js_div x y = NotANumber"

text \<open>
  The text of a number inside a template literal. The decimal text of a finite number
  is the parameter \<open>fin\<close> (\<^verbatim>\<open>Number.prototype.toString\<close>).
\<close>

fun number_text :: "(real \<Rightarrow> string) \<Rightarrow> jsnum \<Rightarrow> string" where
  "number_text fin (Finite x) = fin x"
| "number_text fin PosInfinity = ''Infinity''"
| "number_text fin NegInfinity = ''-Infinity''"
| "number_text fin NotANumber = ''NaN''"

definition digit_char :: "nat \<Rightarrow> char" where
  "digit_char d = ''0123456789abcdef'' ! d"

fun digits :: "nat \<Rightarrow> nat \<Rightarrow> string" where
  "digits b n = (if b < 2 \<or> n < b then [digit_char n] else digits b (n div b) @ [digit_char (n mod b)])"

text \<open>\<^verbatim>\<open>`${i}`\<close> for an array index, and \<^verbatim>\<open>(h >>> 0).toString(16)\<close>.\<close>

definition index_text :: "nat \<Rightarrow> string" where
  "index_text i = digits 10 i"

definition uint32_hex :: "int \<Rightarrow> string" where
  "uint32_hex h = digits 16 (nat (h mod 2 ^ 32))"


subsection \<open>Binning\<close>

text \<open>
  A scale: its \<^verbatim>\<open>type\<close>, and \<^verbatim>\<open>domain\<close> and \<^verbatim>\<open>range\<close> as the two numbers that \<^verbatim>\<open>Math.min\<close>,
  \<^verbatim>\<open>Math.max\<close> and \<^verbatim>\<open>lift\<close> see (a \<^verbatim>\<open>Date\<close> as its epoch milliseconds).
\<close>

record scale =
  s_type :: string
  s_domain :: "jsnum \<times> jsnum"
  s_range :: "jsnum \<times> jsnum"

text \<open>
  A value handed to a bin function, by what the function reads from it:
  the text of \<^verbatim>\<open>asColumn(value)\<close>, \<^verbatim>\<open>asColumn(value).columns\<close>, and, when the value is a
  \<^verbatim>\<open>Date\<close>, the number \<^verbatim>\<open>+value\<close>.
\<close>

record bin_arg =
  arg_sql :: string
  arg_columns :: "string list option"
  arg_date :: "jsnum option"

text \<open>The result of \<^verbatim>\<open>expr(text, columns)\<close>.\<close>

record sql_expr =
  e_text :: string
  e_columns :: "string list option"

definition binFunction ::
  "(real \<Rightarrow> string) \<Rightarrow> jsnum \<times> jsnum \<Rightarrow> jsnum \<times> jsnum \<Rightarrow> (jsnum \<Rightarrow> jsnum) \<Rightarrow>
   (bin_arg \<Rightarrow> string) \<Rightarrow> bin_arg \<Rightarrow> sql_expr" where
  "binFunction fin domain rng lift sql =
     (let lo = lift (Math_min (fst domain) (snd domain));
          hi = lift (Math_max (fst domain) (snd domain));
          a = js_div (Math_abs (js_sub (lift (snd rng)) (lift (fst rng)))) (js_sub hi lo)
      in (\<lambda>value.
            \<lparr>e_text = ''FLOOR('' @ number_text fin a @ ''::DOUBLE * ('' @ sql value @ '' - ''
                        @ number_text fin lo @ ''::DOUBLE))'',
             e_columns = arg_columns value\<rparr>))"

definition symlog :: "jsnum \<Rightarrow> jsnum" where
  "symlog x = js_mul (Math_sign x) (Math_log1p (Math_abs x))"

text \<open>The \<^verbatim>\<open>switch\<close> of \<^verbatim>\<open>binInterval\<close>: \<^verbatim>\<open>lift\<close> and \<^verbatim>\<open>sql\<close> for a scale type, \<open>None\<close>
  when no case assigns them.\<close>

definition scale_switch ::
  "(real \<Rightarrow> string) \<Rightarrow> (string \<Rightarrow> string) \<Rightarrow> string \<Rightarrow>
   ((jsnum \<Rightarrow> jsnum) \<times> (bin_arg \<Rightarrow> string)) option" where
  "scale_switch fin epoch ty =
     (if ty = ''linear'' then
        Some (\<lambda>x. x, arg_sql)
      else if ty = ''log'' then
        Some (Math_log, \<lambda>c. ''LN('' @ arg_sql c @ '')'')
      else if ty = ''symlog'' then
        Some (symlog, \<lambda>c. ''SIGN('' @ arg_sql c @ '') * LN(1 + ABS('' @ arg_sql c @ ''))'')
      else if ty = ''sqrt'' then
        Some (Math_sqrt, \<lambda>c. ''SQRT('' @ arg_sql c @ '')'')
      else if ty = ''utc'' \<or> ty = ''time'' then
        Some (\<lambda>x. x,
              \<lambda>c. case arg_date c of Some t \<Rightarrow> number_text fin t | None \<Rightarrow> epoch (arg_sql c))
      else None)"

definition binInterval ::
  "(real \<Rightarrow> string) \<Rightarrow> (string \<Rightarrow> string) \<Rightarrow> scale \<Rightarrow> (bin_arg \<Rightarrow> sql_expr) option" where
  "binInterval fin epoch sc =
     (case scale_switch fin epoch (s_type sc) of
        None \<Rightarrow> None
      | Some (lift, sql) \<Rightarrow> Some (binFunction fin (s_domain sc) (s_range sc) lift sql))"

subsection \<open>Active view\<close>

text \<open>
  The predicate of a clause: \<^verbatim>\<open>columns\<close> (each column by its text and its own columns),
  \<^verbatim>\<open>expr\<close>, and \<^verbatim>\<open>value\<close>, which is an array of plain values (one interval) or of
  \<^verbatim>\<open>{ value, expr }\<close> objects (one per scale).
\<close>

record part =
  part_expr :: bin_arg
  part_value :: "bin_arg list"

datatype pvalue = Range "bin_arg list" | Parts "part list"

record pred =
  p_columns :: "sql_expr list option"
  p_expr :: "bin_arg option"
  p_value :: pvalue

record schema =
  sch_type :: string
  scales :: "scale list option"

text \<open>\<open>source\<close> is the identity of the clause's source object, \<open>None\<close> when it is falsy.\<close>

record clause =
  source :: "nat option"
  schema :: "schema option"
  predicate :: "pred option"

text \<open>The predicates built by \<^verbatim>\<open>isBetween\<close> and \<^verbatim>\<open>and\<close>, the empty array, and a clause
  predicate passed through.\<close>

datatype filter =
  IsBetween string "sql_expr list"
| And "filter list"
| EmptyArray
| Verbatim pred

record active_view =
  av_source :: "nat option"
  av_columns :: "(string \<times> sql_expr) list"
  av_predicate :: "pred option \<Rightarrow> error + filter option"

text \<open>An object that is not a string passes through \<^verbatim>\<open>asColumn\<close> unchanged: its text is
  that of \<^verbatim>\<open>Object.prototype.toString\<close> and it has no \<^verbatim>\<open>columns\<close>.\<close>

definition object_arg :: bin_arg where
  "object_arg = \<lparr>arg_sql = ''[object Object]'', arg_columns = None, arg_date = None\<rparr>"

text \<open>\<^verbatim>\<open>p => p ? isBetween('active0', p.value.map(bins[0])) : []\<close>\<close>

definition predicate_one :: "(bin_arg \<Rightarrow> sql_expr) \<Rightarrow> pred option \<Rightarrow> error + filter option" where
  "predicate_one bin0 p =
     (case p of
        None \<Rightarrow> Inr (Some EmptyArray)
      | Some pr \<Rightarrow>
          (case p_value pr of
             Range vs \<Rightarrow> Inr (Some (IsBetween ''active0'' (map bin0 vs)))
           | Parts ps \<Rightarrow> Inr (Some (IsBetween ''active0'' (map (\<lambda>_. bin0 object_arg) ps)))))"

text \<open>
  \<^verbatim>\<open>p.value.map(({ value }, i) => isBetween(`active${i}`, value.map(bins[i])))\<close>, from index
  \<open>i\<close> on. \<^verbatim>\<open>value.map(undefined)\<close> throws when there is no bin function at \<open>i\<close>.
\<close>

fun between_parts ::
  "(bin_arg \<Rightarrow> sql_expr) list \<Rightarrow> nat \<Rightarrow> part list \<Rightarrow> error + filter list" where
  "between_parts bins i [] = Inr []"
| "between_parts bins i (p # ps) =
     (if i < length bins then
        (case between_parts bins (Suc i) ps of
           Inl e \<Rightarrow> Inl e
         | Inr fs \<Rightarrow> Inr (IsBetween (''active'' @ index_text i) (map (bins ! i) (part_value p)) # fs))
      else Inl TypeError)"

text \<open>The predicate for several scales. A plain value has no \<^verbatim>\<open>value\<close> property, so
  \<^verbatim>\<open>value.map\<close> throws on it.\<close>

definition predicate_many ::
  "(bin_arg \<Rightarrow> sql_expr) list \<Rightarrow> pred option \<Rightarrow> error + filter option" where
  "predicate_many bins p =
     (case p of
        None \<Rightarrow> Inr (Some EmptyArray)
      | Some pr \<Rightarrow>
          (case p_value pr of
             Range vs \<Rightarrow> if vs = [] then Inr (Some (And [])) else Inl TypeError
           | Parts ps \<Rightarrow>
               (case between_parts bins 0 ps of
                  Inl e \<Rightarrow> Inl e
                | Inr fs \<Rightarrow> Inr (Some (And fs)))))"

text \<open>\<^verbatim>\<open>clause.predicate.value.map((p, i) => [`active${i}`, bins[i](p.expr)])\<close>, from index
  \<open>i\<close> on.\<close>

fun active_columns ::
  "(bin_arg \<Rightarrow> sql_expr) list \<Rightarrow> nat \<Rightarrow> part list \<Rightarrow> error + (string \<times> sql_expr) list" where
  "active_columns bins i [] = Inr []"
| "active_columns bins i (p # ps) =
     (if i < length bins then
        (case active_columns bins (Suc i) ps of
           Inl e \<Rightarrow> Inl e
         | Inr cs \<Rightarrow> Inr ((''active'' @ index_text i, (bins ! i) (part_expr p)) # cs))
      else Inl TypeError)"

text \<open>
  \<^verbatim>\<open>getActiveView\<close>. \<open>those\<close> gives the bin functions when none of them is \<^verbatim>\<open>null\<close>, which
  is the test \<^verbatim>\<open>bins.some(b => b == null)\<close>. Reading \<^verbatim>\<open>.columns\<close> of an absent \<^verbatim>\<open>expr\<close> throws.
\<close>

definition getActiveView ::
  "(real \<Rightarrow> string) \<Rightarrow> (string \<Rightarrow> string) \<Rightarrow> clause \<Rightarrow> error + active_view option" where
  "getActiveView fin epoch cl =
     (let columns = (case predicate cl of None \<Rightarrow> None | Some p \<Rightarrow> p_columns p) in
      case (schema cl, columns, predicate cl) of
        (Some sch, Some cols, Some p) \<Rightarrow>
          (case (if sch_type sch = ''interval'' then scales sch else None) of
             Some scs \<Rightarrow>
               (case those (map (binInterval fin epoch) scs) of
                  None \<Rightarrow> Inr None
                | Some bins \<Rightarrow>
                    (case bins of
                       [bin0] \<Rightarrow>
                         (case p_expr p of
                            None \<Rightarrow> Inl TypeError
                          | Some e \<Rightarrow>
                              Inr (Some \<lparr>av_source = source cl,
                                         av_columns = [(''active0'', bin0 e)],
                                         av_predicate = predicate_one bin0\<rparr>))
                     | _ \<Rightarrow>
                         (case (case p_value p of
                                  Parts ps \<Rightarrow> active_columns bins 0 ps
                                | Range vs \<Rightarrow> if vs = [] then Inr [] else Inl TypeError) of
                            Inl e \<Rightarrow> Inl e
                          | Inr cs \<Rightarrow>
                              Inr (Some \<lparr>av_source = source cl,
                                         av_columns = cs,
                                         av_predicate = predicate_many bins\<rparr>))))
           | None \<Rightarrow>
               if sch_type sch = ''point'' then
                 Inr (Some \<lparr>av_source = source cl,
                            av_columns = map (\<lambda>col. (e_text col, col)) cols,
                            av_predicate = (\<lambda>p. Inr (map_option Verbatim p))\<rparr>)
               else Inr None)
      | _ \<Rightarrow> Inr None)"


subsection \<open>The indexer\<close>

text \<open>
  What the indexer uses and the file does not define:
  \<^item> \<open>num_text\<close>: the decimal text of a finite number; \<open>epoch_ms\<close>: the text built by
    \<^verbatim>\<open>epoch_ms\<close> of the query builder;
  \<^item> \<open>fnv_hash\<close> and \<open>skipClient\<close>: the two helpers imported from \<^verbatim>\<open>./util\<close>;
  \<^item> \<open>selection_active\<close>: \<^verbatim>\<open>this.selection.active\<close>; \<open>cross\<close>: the \<^verbatim>\<open>cross\<close> flag of the
    cloned selection;
  \<^item> \<open>build_query\<close>: the text of the index construction query of a client, that is
    \<^verbatim>\<open>client.query(sel.predicate(client))\<close> with the active columns and the count column
    selected, grouped by the active column names, after \<^verbatim>\<open>subqueryPushdown\<close>, as
    \<^verbatim>\<open>toString()\<close> renders it (or the exception raised on the way);
  \<^item> \<open>exec_fails\<close>: whether the executor \<^verbatim>\<open>mc.exec\<close> fails on a statement.
\<close>

record env =
  num_text :: "real \<Rightarrow> string"
  epoch_ms :: "string \<Rightarrow> string"
  fnv_hash :: "string \<Rightarrow> int"
  skipClient :: "client \<Rightarrow> clause \<Rightarrow> bool"
  cross :: bool
  selection_active :: "clause option"
  build_query ::
    "client \<Rightarrow> clause \<Rightarrow> (string \<times> sql_expr) list \<Rightarrow> (string \<times> string) list \<Rightarrow> error + string"
  exec_fails :: "string \<Rightarrow> bool"

text \<open>An entry of the index map, \<^verbatim>\<open>{ table, ...index }\<close>.\<close>

record index_entry =
  table :: string
  entry_columns :: index_columns

text \<open>The collection of clients handed to \<^verbatim>\<open>index\<close>: \<open>cs_id\<close> is the identity of the
  collection object, which is all that \<^verbatim>\<open>this.clients !== clients\<close> compares.\<close>

record clientset =
  cs_id :: nat
  members :: "client list"

record indexer =
  enabled :: bool
  clients :: "clientset option"
  indices :: "(nat \<rightharpoonup> index_entry) option"
  activeView :: "active_view option"

text \<open>The query handed to \<^verbatim>\<open>mc.updateClient\<close>:
  \<^verbatim>\<open>Query.select(dims, aggr).from(table).groupby(dims).where(filter)\<close>.\<close>

record follow_up =
  fu_table :: string
  fu_dims :: "string list option"
  fu_aggr :: "(string \<times> string) list option"
  fu_filter :: "filter option"

text \<open>
  What a call does besides changing the indexer: the calls of the analyzer and of the
  resolver, the console output, the statements submitted to the executor, and the queries
  handed to the clients.
\<close>

datatype event =
  Analyze nat
| Resolve
| Warn string
| Exec string
| LogError
| UpdateClient nat follow_up

datatype 'a outcome = Threw error | Returned 'a

definition reset :: indexer where
  "reset = \<lparr>enabled = False, clients = None, indices = None, activeView = None\<rparr>"

text \<open>\<^verbatim>\<open>c.from\<close> as \<^verbatim>\<open>cols[0]?.from\<close> and \<^verbatim>\<open>c && c.from === from\<close> read it.\<close>

fun columns_from :: "index_columns \<Rightarrow> base_table" where
  "columns_from Null = Undefined"
| "columns_from EarlyExit = NaN"
| "columns_from (Columns aggr dims cnt frm) = frm"

fun columns_count :: "index_columns \<Rightarrow> (string \<times> string) list" where
  "columns_count (Columns aggr dims cnt frm) = cnt"
| "columns_count other = []"

text \<open>\<^verbatim>\<open>Array.from(clients).map(getIndexColumns)\<close>; an exception ends the map.\<close>

fun analyze_all :: "client list \<Rightarrow> (error + index_columns list) \<times> event list" where
  "analyze_all [] = (Inr [], [])"
| "analyze_all (c # cs) =
     (case getIndexColumns c of
        Inl e \<Rightarrow> (Inl e, [Analyze (cid c)])
      | Inr ic \<Rightarrow>
          (case analyze_all cs of
             (Inl e, evs) \<Rightarrow> (Inl e, Analyze (cid c) # evs)
           | (Inr ics, evs) \<Rightarrow> (Inr (ic # ics), Analyze (cid c) # evs)))"

definition compatible :: "index_columns list \<Rightarrow> bool" where
  "compatible cols =
     (let frm = (case cols of [] \<Rightarrow> Undefined | c # _ \<Rightarrow> columns_from c) in
      \<forall>c\<in>set cols. c \<noteq> Null \<and> \<not> strict_neq (columns_from c) frm)"

text \<open>\<^verbatim>\<open>createIndex\<close>: the statement is submitted; a failure is caught and logged.\<close>

definition createIndex :: "env \<Rightarrow> string \<Rightarrow> string \<Rightarrow> event list" where
  "createIndex ev tbl query =
     (let stmt = ''CREATE TEMP TABLE IF NOT EXISTS '' @ tbl @ '' AS '' @ query in
      Exec stmt # (if exec_fails ev stmt then [LogError] else []))"

text \<open>
  The loop \<^verbatim>\<open>for (const client of clients)\<close> of \<^verbatim>\<open>index\<close>, with the map \<^verbatim>\<open>indices\<close> as
  accumulator. \<^verbatim>\<open>index.count\<close> throws when \<^verbatim>\<open>getIndexColumns\<close> gave \<^verbatim>\<open>null\<close>.
\<close>

fun build_indices ::
  "env \<Rightarrow> clause \<Rightarrow> active_view \<Rightarrow> (nat \<rightharpoonup> index_entry) \<Rightarrow> client list \<Rightarrow>
   unit outcome \<times> (nat \<rightharpoonup> index_entry) \<times> event list" where
  "build_indices ev active view m [] = (Returned (), m, [])"
| "build_indices ev active view m (c # cs) =
     (if cross ev \<and> skipClient ev c active then build_indices ev active view m cs
      else
        (case getIndexColumns c of
           Inl e \<Rightarrow> (Threw e, m, [Analyze (cid c)])
         | Inr ic \<Rightarrow>
             if ic = Null then (Threw TypeError, m, [Analyze (cid c)])
             else
               (case build_query ev c active (av_columns view) (columns_count ic) of
                  Inl e \<Rightarrow> (Threw e, m, [Analyze (cid c)])
                | Inr sql \<Rightarrow>
                    (let tbl = ''tile_index_'' @ uint32_hex (fnv_hash ev sql);
                         m' = m(cid c \<mapsto> \<lparr>table = tbl, entry_columns = ic\<rparr>);
                         evs = Analyze (cid c) # createIndex ev tbl sql
                     in case build_indices ev active view m' cs of
                          (out, m'', evs') \<Rightarrow> (out, m'', evs @ evs')))))"

text \<open>Lines 34 to 42 of \<^verbatim>\<open>index\<close>: a collection of another identity is analysed anew; an
  exception of the analyzer leaves the indexer as it was.\<close>

definition analyze_clients :: "indexer \<Rightarrow> clientset \<Rightarrow> (error + indexer) \<times> event list" where
  "analyze_clients s cs =
     (if map_option cs_id (clients s) \<noteq> Some (cs_id cs) then
        (case analyze_all (members cs) of
           (Inl e, evs) \<Rightarrow> (Inl e, evs)
         | (Inr cols, evs) \<Rightarrow>
             (Inr (s\<lparr>enabled := compatible cols, clients := Some cs,
                     indices := None, activeView := None\<rparr>), evs))
      else (Inr s, []))"

text \<open>Lines 43 to 82 of \<^verbatim>\<open>index\<close>.\<close>

definition index_active ::
  "env \<Rightarrow> indexer \<Rightarrow> clientset \<Rightarrow> clause option \<Rightarrow> bool outcome \<times> indexer \<times> event list" where
  "index_active ev s cs active_arg =
     (if \<not> enabled s then (Returned False, s, [])
      else
        (case (case active_arg of Some a \<Rightarrow> Some a | None \<Rightarrow> selection_active ev) of
           None \<Rightarrow> (Threw TypeError, s, [])
         | Some active \<Rightarrow>
             if source active = None then (Returned False, s, [])
             else if source active = (case activeView s of None \<Rightarrow> None | Some v \<Rightarrow> av_source v)
             then (Returned True, s, [])
             else
               (case getActiveView (num_text ev) (epoch_ms ev) active of
                  Inl e \<Rightarrow> (Threw e, s, [Resolve])
                | Inr None \<Rightarrow> (Returned False, s\<lparr>activeView := None\<rparr>, [Resolve])
                | Inr (Some view) \<Rightarrow>
                    (case build_indices ev active view Map.empty (members cs) of
                       (out, m, evs) \<Rightarrow>
                         (case out of Threw e \<Rightarrow> Threw e | Returned _ \<Rightarrow> Returned True,
                          s\<lparr>indices := Some m, activeView := Some view\<rparr>,
                          [Resolve, Warn ''DATA TILE INDEX CONSTRUCTION''] @ evs)))))"

definition index ::
  "env \<Rightarrow> indexer \<Rightarrow> clientset \<Rightarrow> clause option \<Rightarrow> bool outcome \<times> indexer \<times> event list" where
  "index ev s cs active_arg =
     (case analyze_clients s cs of
        (Inl e, evs0) \<Rightarrow> (Threw e, s, evs0)
      | (Inr s1, evs0) \<Rightarrow>
          (case index_active ev s1 cs active_arg of
             (out, s2, evs) \<Rightarrow> (out, s2, evs0 @ evs)))"

text \<open>\<^verbatim>\<open>this.activeView.predicate(this.selection.active.predicate)\<close>\<close>

definition derive_filter :: "env \<Rightarrow> indexer \<Rightarrow> error + filter option" where
  "derive_filter ev s =
     (case activeView s of
        None \<Rightarrow> Inl TypeError
      | Some v \<Rightarrow>
          (case selection_active ev of
             None \<Rightarrow> Inl TypeError
           | Some a \<Rightarrow> av_predicate v (predicate a)))"

fun columns_dims :: "index_columns \<Rightarrow> string list option" where
  "columns_dims (Columns aggr dims cnt frm) = Some dims"
| "columns_dims other = None"

fun columns_aggr :: "index_columns \<Rightarrow> (string \<times> string) list option" where
  "columns_aggr (Columns aggr dims cnt frm) = Some aggr"
| "columns_aggr other = None"

definition updateClient ::
  "env \<Rightarrow> indexer \<Rightarrow> client \<Rightarrow> filter option \<Rightarrow> unit outcome \<times> event list" where
  "updateClient ev s c flt =
     (case indices s of
        None \<Rightarrow> (Threw TypeError, [])
      | Some m \<Rightarrow>
          (case m (cid c) of
             None \<Rightarrow> (Returned (), [])
           | Some entry \<Rightarrow>
               (case (if flt = None then derive_filter ev s else Inr flt) of
                  Inl e \<Rightarrow> (Threw e, [])
                | Inr f \<Rightarrow>
                    (Returned (),
                     [UpdateClient (cid c)
                        \<lparr>fu_table = table entry,
                         fu_dims = columns_dims (entry_columns entry),
                         fu_aggr = columns_aggr (entry_columns entry),
                         fu_filter = f\<rparr>]))))"

text \<open>
  \<^verbatim>\<open>update\<close>: every \<^verbatim>\<open>updateClient\<close> call runs (none of them awaits), and
  \<^verbatim>\<open>Promise.all\<close> rejects when one of them does.
\<close>

fun update_all :: "env \<Rightarrow> indexer \<Rightarrow> filter option \<Rightarrow> client list \<Rightarrow> unit outcome \<times> event list" where
  "update_all ev s flt [] = (Returned (), [])"
| "update_all ev s flt (c # cs) =
     (case (updateClient ev s c flt, update_all ev s flt cs) of
        ((Threw e, evs), (_, evs')) \<Rightarrow> (Threw e, evs @ evs')
      | ((Returned _, evs), (out, evs')) \<Rightarrow> (out, evs @ evs'))"

definition update :: "env \<Rightarrow> indexer \<Rightarrow> unit outcome \<times> event list" where
  "update ev s =
     (case derive_filter ev s of
        Inl e \<Rightarrow> (Threw e, [])
      | Inr flt \<Rightarrow>
          (case clients s of
             None \<Rightarrow> (Threw TypeError, [])
           | Some cs \<Rightarrow> update_all ev s flt (members cs)))"


subsection \<open>Example queries and clients\<close>

definition col :: "string \<Rightarrow> select_item" where
  "col n = \<lparr>item_as = n, aggregate = None\<rparr>"

definition agg :: "string \<Rightarrow> string \<Rightarrow> select_item" where
  "agg f n = \<lparr>item_as = n, aggregate = Some f\<rparr>"

text \<open>\<^verbatim>\<open>SELECT x FROM t\<close>, \<^verbatim>\<open>SELECT 1 AS x\<close> and a set operation over the given queries.\<close>

definition q_table :: "string \<Rightarrow> query" where
  "q_table t = Query (Some [col ''x'']) [Some t] (Some []) []"

definition q_no_from :: query where
  "q_no_from = Query (Some [col ''x'']) [] (Some []) []"

definition q_union :: "query list \<Rightarrow> query" where
  "q_union qs = Query None [] None qs"

text \<open>\<^verbatim>\<open>SELECT items FROM sales GROUP BY category\<close>\<close>

definition sales_query :: "select_item list \<Rightarrow> query" where
  "sales_query items = Query (Some items) [Some ''sales''] (Some [Some ''category'']) []"

definition five_items :: "select_item list" where
  "five_items =
     [col ''category'', agg ''count'' ''n'', agg ''Sum'' ''total'', agg ''AVG'' ''mean'',
      agg ''min'' ''lowest'', agg ''Max'' ''highest'']"

definition client_five :: client where
  "client_five = \<lparr>cid = 5, client_query = sales_query five_items, filterIndexable = True\<rparr>"

text \<open>A client that selects \<^verbatim>\<open>region\<close> without grouping by it.\<close>

definition client_ungrouped :: client where
  "client_ungrouped =
     \<lparr>cid = 6, client_query = sales_query [col ''category'', col ''region'', agg ''sum'' ''total''],
      filterIndexable = True\<rparr>"

text \<open>A grouped query over a union of two different tables, and an aggregate query
  without a \<^verbatim>\<open>GROUP BY\<close> clause.\<close>

definition client_mixed_union :: client where
  "client_mixed_union =
     \<lparr>cid = 7,
      client_query = Query (Some [col ''category'', agg ''count'' ''n'']) [None]
                       (Some [Some ''category''])
                       [q_union [q_table ''sales'', q_table ''returns'']],
      filterIndexable = True\<rparr>"

definition client_ungrouped_count :: client where
  "client_ungrouped_count =
     \<lparr>cid = 8, client_query = Query (Some [agg ''count'' ''n'']) [Some ''sales''] (Some []) [],
      filterIndexable = True\<rparr>"

text \<open>\<^verbatim>\<open>SELECT MEDIAN(price) AS m FROM sales GROUP BY m\<close>, and the same with a plain
  column \<^verbatim>\<open>m\<close>.\<close>

definition client_median :: client where
  "client_median =
     \<lparr>cid = 9, client_query = Query (Some [agg ''median'' ''m'']) [Some ''sales''] (Some [Some ''m'']) [],
      filterIndexable = True\<rparr>"

definition client_plain_m :: client where
  "client_plain_m =
     \<lparr>cid = 9, client_query = Query (Some [col ''m'']) [Some ''sales''] (Some [Some ''m'']) [],
      filterIndexable = True\<rparr>"

subsection \<open>Example indexer runs\<close>

text \<open>Three clients over \<^verbatim>\<open>sales\<close>, grouped by \<^verbatim>\<open>category\<close>.\<close>

definition client_sum :: client where
  "client_sum =
     \<lparr>cid = 1, client_query = sales_query [col ''category'', agg ''sum'' ''total''],
      filterIndexable = True\<rparr>"

definition client_count :: client where
  "client_count =
     \<lparr>cid = 2, client_query = sales_query [col ''category'', agg ''count'' ''n''],
      filterIndexable = True\<rparr>"

definition client_avg :: client where
  "client_avg =
     \<lparr>cid = 3, client_query = sales_query [col ''category'', agg ''avg'' ''mean''],
      filterIndexable = True\<rparr>"

definition three_clients :: clientset where
  "three_clients = \<lparr>cs_id = 10, members = [client_sum, client_count, client_avg]\<rparr>"

definition date_column :: bin_arg where
  "date_column = \<lparr>arg_sql = dq @ ''date'' @ dq, arg_columns = Some [''date''], arg_date = None\<rparr>"

definition literal :: "string \<Rightarrow> bin_arg" where
  "literal t = \<lparr>arg_sql = t, arg_columns = None, arg_date = None\<rparr>"

definition date_pred :: pred where
  "date_pred =
     \<lparr>p_columns = Some [\<lparr>e_text = dq @ ''date'' @ dq, e_columns = Some [''date'']\<rparr>],
      p_expr = Some date_column,
      p_value = Range [literal ''20'', literal ''40'']\<rparr>"

text \<open>An interval clause of source \<open>src\<close> over \<^verbatim>\<open>date\<close> with one scale of type \<open>ty\<close>, domain
  \<open>[d0, d1]\<close> and range \<open>[0, 10]\<close>.\<close>

definition interval_clause :: "nat \<Rightarrow> string \<Rightarrow> real \<Rightarrow> real \<Rightarrow> clause" where
  "interval_clause src ty d0 d1 =
     \<lparr>source = Some src,
      schema = Some \<lparr>sch_type = ''interval'',
                     scales = Some [\<lparr>s_type = ty, s_domain = (Finite d0, Finite d1),
                                     s_range = (Finite 0, Finite 10)\<rparr>]\<rparr>,
      predicate = Some date_pred\<rparr>"

text \<open>
  An environment: the executor fails on every statement, the selection is a crossfilter
  and client 1 is the client of the active clause.
\<close>

definition failing_env :: env where
  "failing_env =
     \<lparr>num_text = (\<lambda>x. if x = 0 then ''0'' else if x = 1 / 10 then ''0.1'' else ''5''),
      epoch_ms = (\<lambda>c. ''epoch_ms('' @ c @ '')''),
      fnv_hash = (\<lambda>sql. - of_char (last sql)),
      skipClient = (\<lambda>c cl. cid c = 1),
      cross = True,
      selection_active = None,
      build_query = (\<lambda>c cl cols cnt. Inr (''Q'' @ index_text (cid c))),
      exec_fails = (\<lambda>stmt. True)\<rparr>"

text \<open>The first call, \<^verbatim>\<open>index(clients, clause)\<close> with a linear scale of domain \<open>[0, 100]\<close>
  on a new indexer: the active view it resolves, the entries it records, the events it
  causes and the indexer it leaves.\<close>

definition linear_bin :: "bin_arg \<Rightarrow> sql_expr" where
  "linear_bin =
     binFunction (num_text failing_env) (Finite 0, Finite 100) (Finite 0, Finite 10) (\<lambda>x. x) arg_sql"

definition linear_view :: active_view where
  "linear_view =
     \<lparr>av_source = Some 100,
      av_columns = [(''active0'', linear_bin date_column)],
      av_predicate = predicate_one linear_bin\<rparr>"

definition count_entry :: index_entry where
  "count_entry =
     \<lparr>table = ''tile_index_ffffffce'',
      entry_columns = Columns [(''n'', sum_expr ''n'')] [''category''] [] (Table ''sales'')\<rparr>"

definition avg_entry :: index_entry where
  "avg_entry =
     \<lparr>table = ''tile_index_ffffffcd'',
      entry_columns = Columns [(''mean'', avg_expr ''mean'' ''_count_'')] [''category'']
                        [(''_count_'', ''COUNT(*)'')] (Table ''sales'')\<rparr>"

definition create_count :: string where
  "create_count = ''CREATE TEMP TABLE IF NOT EXISTS tile_index_ffffffce AS Q2''"

definition create_avg :: string where
  "create_avg = ''CREATE TEMP TABLE IF NOT EXISTS tile_index_ffffffcd AS Q3''"

definition first_events :: "event list" where
  "first_events =
     [Analyze 1, Analyze 2, Analyze 3, Resolve, Warn ''DATA TILE INDEX CONSTRUCTION'',
      Analyze 2, Exec create_count, LogError, Analyze 3, Exec create_avg, LogError]"

definition first_indices :: "nat \<rightharpoonup> index_entry" where
  "first_indices = [2 \<mapsto> count_entry, 3 \<mapsto> avg_entry]"

definition indexed_state :: indexer where
  "indexed_state =
     \<lparr>enabled = True, clients = Some three_clients,
      indices = Some first_indices,
      activeView = Some linear_view\<rparr>"

text \<open>The indexer after a second call whose clause, of another source, has a scale type
  that is not supported: the view is gone, the index map is still the one of the first
  call.\<close>

definition failed_state :: indexer where
  "failed_state = indexed_state\<lparr>activeView := None\<rparr>"

text \<open>A scale whose domain is the single point 5.\<close>


definition degenerate_scale :: scale where
  "degenerate_scale =
     \<lparr>s_type = ''linear'', s_domain = (Finite 5, Finite 5), s_range = (Finite 0, Finite 10)\<rparr>"

section \<open>Properties\<close>

subsection \<open>Letter case\<close>

lemma lower_upper_char: "toLowerCase_char (toUpperCase_char c) = toLowerCase_char c"
  by (auto simp add: toUpperCase_char_def toLowerCase_char_def lower_letters_def upper_letters_def
      split: if_splits)

lemma upper_lower_char: "toUpperCase_char (toLowerCase_char c) = toUpperCase_char c"
  by (auto simp add: toUpperCase_char_def toLowerCase_char_def lower_letters_def upper_letters_def
      split: if_splits)

lemma lower_upper: "toLowerCase (toUpperCase s) = toLowerCase s"
  by (simp add: toLowerCase_def toUpperCase_def lower_upper_char)

lemma upper_lower: "toUpperCase (toLowerCase s) = toUpperCase s"
  by (simp add: toLowerCase_def toUpperCase_def upper_lower_char)

lemma upper_eq_iff:
  assumes "toUpperCase l = u" and "toLowerCase u = l"
  shows "toUpperCase s = u \<longleftrightarrow> same_ignoring_case s l"
proof
  assume "toUpperCase s = u"
  then have "toLowerCase (toUpperCase s) = l" using assms by simp
  moreover have "toLowerCase l = l" using assms lower_upper [of l] by simp
  ultimately show "same_ignoring_case s l" by (simp add: same_ignoring_case_def lower_upper)
next
  assume "same_ignoring_case s l"
  then have "toUpperCase (toLowerCase s) = toUpperCase (toLowerCase l)"
    by (simp add: same_ignoring_case_def)
  then show "toUpperCase s = u" using assms by (simp add: upper_lower)
qed

lemma names_eval:
  "toUpperCase ''count'' = ''COUNT''" "toLowerCase ''COUNT'' = ''count''"
  "toUpperCase ''sum'' = ''SUM''" "toLowerCase ''SUM'' = ''sum''"
  "toUpperCase ''avg'' = ''AVG''" "toLowerCase ''AVG'' = ''avg''"
  "toUpperCase ''min'' = ''MIN''" "toLowerCase ''MIN'' = ''min''"
  "toUpperCase ''max'' = ''MAX''" "toLowerCase ''MAX'' = ''max''"
  by (simp_all add: toUpperCase_def toLowerCase_def toUpperCase_char_def toLowerCase_char_def
      lower_letters_def upper_letters_def)

lemma upper_COUNT: "toUpperCase s = ''COUNT'' \<longleftrightarrow> same_ignoring_case s ''count''"
  by (rule upper_eq_iff) (rule names_eval)+

lemma upper_SUM: "toUpperCase s = ''SUM'' \<longleftrightarrow> same_ignoring_case s ''sum''"
  by (rule upper_eq_iff) (rule names_eval)+

lemma upper_AVG: "toUpperCase s = ''AVG'' \<longleftrightarrow> same_ignoring_case s ''avg''"
  by (rule upper_eq_iff) (rule names_eval)+

lemma upper_MIN: "toUpperCase s = ''MIN'' \<longleftrightarrow> same_ignoring_case s ''min''"
  by (rule upper_eq_iff) (rule names_eval)+

lemma upper_MAX: "toUpperCase s = ''MAX'' \<longleftrightarrow> same_ignoring_case s ''max''"
  by (rule upper_eq_iff) (rule names_eval)+

lemmas upper_iffs = upper_COUNT upper_SUM upper_AVG upper_MIN upper_MAX

text \<open>The \<^verbatim>\<open>switch\<close> on the upper-cased name recognises exactly the five kinds.\<close>

lemma recognised_cases:
  "recognised n = Some KCount \<longleftrightarrow> map_option toUpperCase n = Some ''COUNT''"
  "recognised n = Some KSum \<longleftrightarrow> map_option toUpperCase n = Some ''SUM''"
  "recognised n = Some KAvg \<longleftrightarrow> map_option toUpperCase n = Some ''AVG''"
  "recognised n = Some KMin \<longleftrightarrow> map_option toUpperCase n = Some ''MIN''"
  "recognised n = Some KMax \<longleftrightarrow> map_option toUpperCase n = Some ''MAX''"
  "recognised n = None \<longleftrightarrow>
     map_option toUpperCase n \<notin> {Some ''COUNT'', Some ''SUM'', Some ''AVG'', Some ''MIN'', Some ''MAX''}"
  by (cases n; auto simp add: recognised_def upper_iffs [symmetric])+

subsection \<open>The loop over the selected columns\<close>

lemma select_loop_step:
  "select_loop g (it # rest) aggr dims cnt =
     (case recognised (aggregate it) of
        Some KAvg \<Rightarrow> select_loop g rest (aggr @ spec_entry it) dims (Some ''_count_'')
      | Some k \<Rightarrow> select_loop g rest (aggr @ spec_entry it) dims cnt
      | None \<Rightarrow> if Some (item_as it) \<in> set g then select_loop g rest aggr (dims @ [item_as it]) cnt
                else None)"
proof -
  define k where "k = map_option toUpperCase (aggregate it)"
  have step: "select_loop g (it # rest) aggr dims cnt =
     (if k = Some ''COUNT'' \<or> k = Some ''SUM'' then
        select_loop g rest (aggr @ [(item_as it, sum_expr (item_as it))]) dims cnt
      else if k = Some ''AVG'' then
        select_loop g rest (aggr @ [(item_as it, avg_expr (item_as it) ''_count_'')]) dims
          (Some ''_count_'')
      else if k = Some ''MAX'' then
        select_loop g rest (aggr @ [(item_as it, max_expr (item_as it))]) dims cnt
      else if k = Some ''MIN'' then
        select_loop g rest (aggr @ [(item_as it, min_expr (item_as it))]) dims cnt
      else if Some (item_as it) \<in> set g then
        select_loop g rest aggr (dims @ [item_as it]) cnt
      else None)"
    unfolding k_def by (simp only: select_loop.simps Let_def)
  show ?thesis
  proof (cases "recognised (aggregate it)")
    case None
    then have "k \<notin> {Some ''COUNT'', Some ''SUM'', Some ''AVG'', Some ''MIN'', Some ''MAX''}"
      using recognised_cases(6) [of "aggregate it"] unfolding k_def by blast
    with None show ?thesis
      unfolding step by simp
  next
    case (Some kind)
    then have "k = Some (case kind of KCount \<Rightarrow> ''COUNT'' | KSum \<Rightarrow> ''SUM'' | KAvg \<Rightarrow> ''AVG''
                       | KMin \<Rightarrow> ''MIN'' | KMax \<Rightarrow> ''MAX'')"
      using recognised_cases(1-5) [of "aggregate it"] unfolding k_def by (cases kind) simp_all
    with Some show ?thesis
      unfolding step
      by (cases kind)
         (simp_all add: spec_entry_def sum_expr_def avg_expr_def min_expr_def max_expr_def dq_def)
  qed
qed

lemma select_loop_char:
  "select_loop g items aggr dims cnt =
     (if \<forall>it\<in>set items. plain it \<longrightarrow> Some (item_as it) \<in> set g
      then Some (aggr @ concat (map spec_entry items),
                 dims @ map item_as (filter plain items),
                 if \<exists>it\<in>set items. recognised (aggregate it) = Some KAvg
                 then Some ''_count_'' else cnt)
      else None)"
proof (induction items arbitrary: aggr dims cnt)
  case Nil
  then show ?case by simp
next
  case (Cons it rest)
  show ?case
  proof (cases "recognised (aggregate it)")
    case None
    then have "plain it" and "spec_entry it = []"
      by (simp_all add: plain_def spec_entry_def)
    with None show ?thesis
      unfolding select_loop_step by (simp add: Cons.IH)
  next
    case (Some k)
    then have "\<not> plain it"
      by (simp add: plain_def)
    with Some show ?thesis
      unfolding select_loop_step by (cases k) (simp_all add: Cons.IH)
  qed
qed

lemma getIndexColumns_char:
  assumes "getBaseTable (client_query c) = Inr b"
  shows "getIndexColumns c =
     (if \<not> truthy b \<or> q_groupby (client_query c) = None \<or> \<not> filterIndexable c then Inr EarlyExit
      else case q_select (client_query c) of
        None \<Rightarrow> Inl TypeError
      | Some items \<Rightarrow>
          if \<forall>it\<in>set items. plain it \<longrightarrow> Some (item_as it) \<in> set (the (q_groupby (client_query c)))
          then Inr (Columns (concat (map spec_entry items)) (map item_as (filter plain items))
                  (if \<exists>it\<in>set items. recognised (aggregate it) = Some KAvg
                   then [(''_count_'', ''COUNT(*)'')] else [])
                  b)
          else Inr Null)"
  using assms
  by (auto simp add: getIndexColumns_def Let_def select_loop_char split: option.splits)

lemma getIndexColumns_Inr:
  assumes "getIndexColumns c = Inr r"
  shows "\<exists>b. getBaseTable (client_query c) = Inr b"
  using assms by (auto simp add: getIndexColumns_def Let_def split: sum.splits)

lemmas example_defs =
  col_def agg_def q_table_def q_no_from_def q_union_def sales_query_def five_items_def
  client_five_def client_ungrouped_def client_mixed_union_def client_ungrouped_count_def
  client_median_def client_plain_m_def

lemmas case_defs =
  toUpperCase_def toUpperCase_char_def toLowerCase_def toLowerCase_char_def
  lower_letters_def upper_letters_def same_ignoring_case_def


subsection \<open>Base table resolution\<close>

lemma scan_rest_char:
  assumes "\<forall>c\<in>set qs. \<exists>r. getBaseTable c = Inr r"
  shows "scan_rest base qs =
     Inr (if \<exists>c\<in>set qs. \<exists>r. getBaseTable c = Inr r \<and> r \<noteq> Undefined \<and> strict_neq r base
          then NaN else base)"
  using assms
proof (induction qs)
  case Nil
  then show ?case by simp
next
  case (Cons q qs)
  then obtain r where r: "getBaseTable q = Inr r" by auto
  from Cons have IH: "scan_rest base qs =
     Inr (if \<exists>c\<in>set qs. \<exists>r. getBaseTable c = Inr r \<and> r \<noteq> Undefined \<and> strict_neq r base
          then NaN else base)" by simp
  show ?case
    using r by (simp add: IH)
qed

lemma getBaseTable_branches:
  assumes "q_select q = None \<or> (q_from q \<noteq> [] \<and> subqueries q \<noteq> [])"
  shows "getBaseTable q = branches (subqueries q)"
  using assms by (cases q) (auto split: option.splits list.splits)

text \<open>
  Claim C2, as the code has it. For a query that is not a \<^verbatim>\<open>SELECT\<close> without \<^verbatim>\<open>FROM\<close>:
  without subqueries it resolves to the table of its first \<^verbatim>\<open>FROM\<close> entry; with a single
  subquery it resolves to whatever that subquery resolves to; with several subqueries, the
  first of which resolves to a table \<open>t\<close>, it resolves to \<open>t\<close> when every later subquery
  resolves to \<open>t\<close> or to no table (such a subquery is skipped), and to \<^verbatim>\<open>NaN\<close> otherwise;
  \<^verbatim>\<open>NaN\<close> is not the \<^verbatim>\<open>undefined\<close> that stands for "no table".
\<close>

theorem getBaseTable_identity:
  assumes "q_select q = None \<or> q_from q \<noteq> []"
  shows "(\<forall>f fs. q_select q \<noteq> None \<and> q_from q = f # fs \<and> subqueries q = [] \<longrightarrow>
            getBaseTable q = Inr (from_table f))
       \<and> (\<forall>b. subqueries q = [b] \<longrightarrow> getBaseTable q = getBaseTable b)
       \<and> (\<forall>b bs t. subqueries q = b # bs \<and> getBaseTable b = Inr (Table t) \<and>
              (\<forall>c\<in>set bs. \<exists>r. getBaseTable c = Inr r) \<longrightarrow>
            getBaseTable q =
              Inr (if \<forall>c\<in>set bs. getBaseTable c = Inr (Table t) \<or> getBaseTable c = Inr Undefined
                   then Table t else NaN))
       \<and> NaN \<noteq> Undefined"
proof -
  have one: "getBaseTable q = Inr (from_table f)"
    if "q_select q \<noteq> None" "q_from q = f # fs" "subqueries q = []" for f fs
    using that by (cases q) auto
  have br: "getBaseTable q = branches (subqueries q)" if "subqueries q \<noteq> []"
    using assms that by (intro getBaseTable_branches) auto
  have two: "getBaseTable q = getBaseTable b" if "subqueries q = [b]" for b
    using br that by (cases "getBaseTable b") auto
  have three: "getBaseTable q =
      Inr (if \<forall>c\<in>set bs. getBaseTable c = Inr (Table t) \<or> getBaseTable c = Inr Undefined
           then Table t else NaN)"
    if "subqueries q = b # bs" "getBaseTable b = Inr (Table t)"
       "\<forall>c\<in>set bs. \<exists>r. getBaseTable c = Inr r" for b bs t
  proof -
    have cond: "(\<exists>c\<in>set bs. \<exists>r. getBaseTable c = Inr r \<and> r \<noteq> Undefined \<and> strict_neq r (Table t))
        \<longleftrightarrow> \<not> (\<forall>c\<in>set bs. getBaseTable c = Inr (Table t) \<or> getBaseTable c = Inr Undefined)"
      (is "?L \<longleftrightarrow> ?R")
    proof
      assume ?L
      then obtain c r where c: "c \<in> set bs" "getBaseTable c = Inr r" "r \<noteq> Undefined" "r \<noteq> Table t"
        by (auto simp add: strict_neq_def)
      then have "getBaseTable c \<noteq> Inr (Table t) \<and> getBaseTable c \<noteq> Inr Undefined"
        by simp
      with c(1) show ?R by blast
    next
      assume ?R
      then obtain c where c: "c \<in> set bs" "getBaseTable c \<noteq> Inr (Table t)"
        "getBaseTable c \<noteq> Inr Undefined" by auto
      with that(3) obtain r where "getBaseTable c = Inr r" by auto
      with c show ?L by (auto simp add: strict_neq_def)
    qed
    have "getBaseTable q = scan_rest (Table t) bs"
      using br that by simp
    also have "\<dots> = Inr (if \<exists>c\<in>set bs. \<exists>r. getBaseTable c = Inr r \<and> r \<noteq> Undefined
                              \<and> strict_neq r (Table t)
                         then NaN else Table t)"
      by (rule scan_rest_char) (rule that)
    also have "\<dots> = Inr (if \<forall>c\<in>set bs. getBaseTable c = Inr (Table t) \<or> getBaseTable c = Inr Undefined
                         then Table t else NaN)"
      unfolding cond by simp
    finally show ?thesis .
  qed
  show ?thesis
    using one two three by blast
qed

theorem getBaseTable_identity_witness:
  "getBaseTable (q_table ''sales'') = Inr (Table ''sales'')
   \<and> getBaseTable (q_union [q_table ''sales'']) = getBaseTable (q_table ''sales'')
   \<and> getBaseTable (q_union [q_table ''sales'', q_table ''sales'']) = Inr (Table ''sales'')
   \<and> getBaseTable (q_union [q_table ''sales'', q_no_from]) = Inr (Table ''sales'')
   \<and> getBaseTable (q_union [q_table ''sales'', q_table ''returns'']) = Inr NaN"
proof -
  have a: "q_select (q_table ''sales'') = None \<or> q_from (q_table ''sales'') \<noteq> []"
    by (simp add: q_table_def)
  have b: "q_select (q_union qs) = None \<or> q_from (q_union qs) \<noteq> []" for qs
    by (simp add: q_union_def)
  show ?thesis
    using getBaseTable_identity [OF a] getBaseTable_identity [OF b, of "[q_table ''sales'']"]
      getBaseTable_identity [OF b, of "[q_table ''sales'', q_table ''sales'']"]
      getBaseTable_identity [OF b, of "[q_table ''sales'', q_no_from]"]
      getBaseTable_identity [OF b, of "[q_table ''sales'', q_table ''returns'']"]
    by (simp add: q_table_def q_union_def q_no_from_def)
qed

text \<open>
  The claim as stated fails: a union of a query over \<^verbatim>\<open>sales\<close> and a query without a table
  has branches that do not share one base table, and resolves to \<^verbatim>\<open>sales\<close>, not to \<^verbatim>\<open>NaN\<close>.
\<close>

theorem union_with_tableless_branch:
  "getBaseTable (q_table ''sales'') = Inr (Table ''sales'')
   \<and> getBaseTable q_no_from = Inr Undefined
   \<and> getBaseTable (q_union [q_table ''sales'', q_no_from]) = Inr (Table ''sales'')
   \<and> getBaseTable (q_union [q_table ''sales'', q_no_from]) \<noteq> Inr NaN"
  by (simp add: q_table_def q_no_from_def q_union_def)

subsection \<open>Query shape analysis\<close>





text \<open>
  Claim C7, as the code has it. For a query whose base table resolves without an exception
  and that has a \<^verbatim>\<open>select\<close> method, the analyzer returns \<^verbatim>\<open>null\<close> exactly when the base
  table is truthy, the query has a \<^verbatim>\<open>groupby\<close> method, the client is filter-indexable, and
  some selected column is neither a recognised aggregate nor named in the grouping set.
  When the base table is missing or \<^verbatim>\<open>NaN\<close>, when the query has no \<^verbatim>\<open>groupby\<close> method or
  when the client is not filter-indexable, it returns the object \<^verbatim>\<open>{ from: NaN }\<close> instead.
  Either result among the analysed clients leaves the indexer disabled.
\<close>

theorem analyzer_null_iff:
  assumes "getBaseTable (client_query c) = Inr b"
      and "q_select (client_query c) = Some items"
  shows "(getIndexColumns c = Inr Null \<longleftrightarrow>
            truthy b \<and> filterIndexable c \<and>
            (\<exists>g. q_groupby (client_query c) = Some g \<and>
                 (\<exists>it\<in>set items. plain it \<and> Some (item_as it) \<notin> set g)))
       \<and> (getIndexColumns c = Inr EarlyExit \<longleftrightarrow>
            \<not> truthy b \<or> q_groupby (client_query c) = None \<or> \<not> filterIndexable c)
       \<and> (\<forall>cols. Null \<in> set cols \<or> EarlyExit \<in> set cols \<longrightarrow> \<not> compatible cols)"
proof -
  have "\<not> compatible cols" if "Null \<in> set cols \<or> EarlyExit \<in> set cols" for cols
  proof -
    from that obtain c where c: "c \<in> set cols" "c = Null \<or> c = EarlyExit"
      by auto
    then have "c = Null \<or> strict_neq (columns_from c) frm" for frm
      by (auto simp add: strict_neq_def)
    with c(1) show ?thesis
      unfolding compatible_def Let_def by blast
  qed
  moreover have "(getIndexColumns c = Inr Null \<longleftrightarrow>
            truthy b \<and> filterIndexable c \<and>
            (\<exists>g. q_groupby (client_query c) = Some g \<and>
                 (\<exists>it\<in>set items. plain it \<and> Some (item_as it) \<notin> set g)))
       \<and> (getIndexColumns c = Inr EarlyExit \<longleftrightarrow>
            \<not> truthy b \<or> q_groupby (client_query c) = None \<or> \<not> filterIndexable c)"
    unfolding getIndexColumns_char [OF assms(1)] using assms(2)
    by (auto split: if_splits)
  ultimately show ?thesis
    by blast
qed

theorem analyzer_null_iff_witness:
  "getBaseTable (client_query client_ungrouped) = Inr (Table ''sales'')
   \<and> q_select (client_query client_ungrouped) = Some [col ''category'', col ''region'', agg ''sum'' ''total'']
   \<and> getIndexColumns client_ungrouped = Inr Null
   \<and> getIndexColumns client_ungrouped \<noteq> Inr EarlyExit
   \<and> \<not> compatible [Null] \<and> \<not> compatible [EarlyExit]"
proof -
  have b: "getBaseTable (client_query client_ungrouped) = Inr (Table ''sales'')"
    by (simp add: example_defs)
  have i: "q_select (client_query client_ungrouped)
             = Some [col ''category'', col ''region'', agg ''sum'' ''total'']"
    by (simp add: example_defs)
  have p: "plain (col ''region'')"
    by (simp add: plain_def recognised_def col_def)
  show ?thesis
    using b i p analyzer_null_iff [OF b i]
    by (simp add: client_ungrouped_def sales_query_def col_def)
qed

text \<open>
  The claim as stated fails in both directions: a grouped query over a union of two
  different tables has no single base table, and a query without a \<^verbatim>\<open>GROUP BY\<close> clause
  has no grouping; for neither does the analyzer return \<^verbatim>\<open>null\<close>.
\<close>

theorem analyzer_not_null_without_base_or_grouping:
  "getBaseTable (client_query client_mixed_union) = Inr NaN
   \<and> getIndexColumns client_mixed_union = Inr EarlyExit
   \<and> q_groupby (client_query client_ungrouped_count) = Some []
   \<and> getIndexColumns client_ungrouped_count
       = Inr (Columns [(''n'', sum_expr ''n'')] [] [] (Table ''sales''))"
  by (simp add: example_defs getIndexColumns_def case_defs Let_def strict_neq_def)

text \<open>
  Claim C8, as the code has it. A selected column whose aggregate name is not one of COUNT,
  SUM, AVG, MIN and MAX takes the default branch of the \<^verbatim>\<open>switch\<close>, like a column without
  an aggregate: the analyzer's result is the same as for the query in which the aggregate
  of that column is removed. The analysis gives no shape when the column's name is not in
  the grouping set, and when it gives a shape the column is one of its dimensions.
\<close>

theorem unrecognised_aggregate_default_branch:
  assumes q: "client_query c = Query (Some (xs @ it # ys)) frm grp subq"
      and name: "aggregate it = Some name"
      and other: "toUpperCase name \<notin> {''COUNT'', ''SUM'', ''AVG'', ''MIN'', ''MAX''}"
  shows "getIndexColumns c =
           getIndexColumns
             (c\<lparr>client_query := Query (Some (xs @ it\<lparr>aggregate := None\<rparr> # ys)) frm grp subq\<rparr>)
       \<and> (\<forall>g. grp = Some g \<and> Some (item_as it) \<notin> set g \<longrightarrow>
              getIndexColumns c \<in> {Inl TypeError, Inr EarlyExit, Inr Null})
       \<and> (\<forall>aggr dims cnt b. getIndexColumns c = Inr (Columns aggr dims cnt b) \<longrightarrow>
              item_as it \<in> set dims \<and> (\<exists>g. grp = Some g \<and> Some (item_as it) \<in> set g))"
proof -
  let ?it' = "it\<lparr>aggregate := None\<rparr>"
  let ?c' = "c\<lparr>client_query := Query (Some (xs @ ?it' # ys)) frm grp subq\<rparr>"
  have pl: "plain it"
    using recognised_cases(6) [of "aggregate it"] name other by (simp add: plain_def)
  have pl': "plain ?it'"
    by (simp add: plain_def recognised_def)
  have se: "spec_entry it = []" "spec_entry ?it' = []"
    using pl pl' by (simp_all add: plain_def spec_entry_def)
  have navg: "recognised (aggregate it) \<noteq> Some KAvg" "recognised (aggregate ?it') \<noteq> Some KAvg"
    using pl pl' by (simp_all add: plain_def)
  have same: "select_loop g (xs @ it # ys) [] [] None = select_loop g (xs @ ?it' # ys) [] [] None" for g
    unfolding select_loop_char using pl pl' se navg by (simp add: ball_Un bex_Un)
  have gb: "getBaseTable (client_query ?c') = getBaseTable (client_query c)"
    using q by simp
  have sel: "q_select (client_query c) = Some (xs @ it # ys)"
    "q_select (client_query ?c') = Some (xs @ ?it' # ys)"
    "q_groupby (client_query c) = grp" "q_groupby (client_query ?c') = grp"
    "filterIndexable ?c' = filterIndexable c"
    using q by simp_all
  have first: "getIndexColumns c = getIndexColumns ?c'"
    unfolding getIndexColumns_def Let_def gb sel
    by (simp add: same split: sum.splits option.splits)
  have second: "getIndexColumns c \<in> {Inl TypeError, Inr EarlyExit, Inr Null}"
    if "grp = Some g" "Some (item_as it) \<notin> set g" for g
  proof (cases "getBaseTable (client_query c)")
    case (Inl e)
    then have "getIndexColumns c = Inl e"
      by (simp add: getIndexColumns_def Let_def)
    then show ?thesis by (cases e) simp
  next
    case (Inr b)
    show ?thesis
      unfolding getIndexColumns_char [OF Inr] using sel(1,3) that pl by auto
  qed
  have third: "item_as it \<in> set dims \<and> (\<exists>g. grp = Some g \<and> Some (item_as it) \<in> set g)"
    if r: "getIndexColumns c = Inr (Columns aggr dims cnt b)" for aggr dims cnt b
  proof -
    obtain b' where b': "getBaseTable (client_query c) = Inr b'"
      using getIndexColumns_Inr [OF r] by blast
    show ?thesis
      using r pl unfolding getIndexColumns_char [OF b'] using q
      by (auto split: if_splits)
  qed
  show ?thesis
    using first second third by blast
qed

theorem unrecognised_aggregate_default_branch_witness:
  "client_query client_median = Query (Some ([] @ agg ''median'' ''m'' # [])) [Some ''sales''] (Some [Some ''m'']) []
   \<and> aggregate (agg ''median'' ''m'') = Some ''median''
   \<and> toUpperCase ''median'' \<notin> {''COUNT'', ''SUM'', ''AVG'', ''MIN'', ''MAX''}
   \<and> getIndexColumns client_median = getIndexColumns client_plain_m
   \<and> getIndexColumns client_plain_m = Inr (Columns [] [''m''] [] (Table ''sales''))"
proof -
  have q: "client_query client_median
      = Query (Some ([] @ agg ''median'' ''m'' # [])) [Some ''sales''] (Some [Some ''m'']) []"
    by (simp add: example_defs)
  have n: "aggregate (agg ''median'' ''m'') = Some ''median''"
    by (simp add: agg_def)
  have o: "toUpperCase ''median'' \<notin> {''COUNT'', ''SUM'', ''AVG'', ''MIN'', ''MAX''}"
    by (simp add: case_defs)
  have c': "client_median\<lparr>client_query :=
              Query (Some ([] @ (agg ''median'' ''m'')\<lparr>aggregate := None\<rparr> # [])) [Some ''sales'']
                (Some [Some ''m'']) []\<rparr> = client_plain_m"
    by (simp add: example_defs)
  have r: "getIndexColumns client_plain_m = Inr (Columns [] [''m''] [] (Table ''sales''))"
    by (simp add: example_defs getIndexColumns_def case_defs Let_def)
  show ?thesis
    using q n o r unrecognised_aggregate_default_branch [OF q n o] unfolding c' by simp
qed

text \<open>
  The claim as stated fails: \<^verbatim>\<open>MEDIAN(price) AS m\<close> with \<^verbatim>\<open>m\<close> in the grouping set is
  taken as the dimension \<^verbatim>\<open>m\<close>, and the analysis returns a shape.
\<close>

theorem median_in_grouping_set_is_dimension:
  "aggregate (agg ''median'' ''m'') = Some ''median''
   \<and> toUpperCase ''median'' \<notin> {''COUNT'', ''SUM'', ''AVG'', ''MIN'', ''MAX''}
   \<and> getIndexColumns client_median = Inr (Columns [] [''m''] [] (Table ''sales''))
   \<and> getIndexColumns client_median \<noteq> Inr Null"
  by (simp add: example_defs getIndexColumns_def case_defs Let_def)


subsection \<open>Binning and active view resolution\<close>

lemma division_by_zero:
  "js_div (Math_abs x) (Finite 0) \<in> {PosInfinity, NotANumber}"
  by (cases x) auto

lemma binInterval_Some:
  assumes "scale_switch fin epoch (s_type sc) = Some (lift, sql)"
  shows "binInterval fin epoch sc = Some (binFunction fin (s_domain sc) (s_range sc) lift sql)"
  using assms by (simp add: binInterval_def)

lemma getActiveView_single:
  assumes "schema cl = Some \<lparr>sch_type = ''interval'', scales = Some [sc]\<rparr>"
      and "predicate cl = Some p" "p_columns p = Some cols" "p_expr p = Some e"
      and "binInterval fin epoch sc = Some b"
  shows "getActiveView fin epoch cl =
     Inr (Some \<lparr>av_source = source cl, av_columns = [(''active0'', b e)],
                av_predicate = predicate_one b\<rparr>)"
  using assms by (simp add: getActiveView_def Let_def)

lemma binInterval_unsupported:
  assumes "s_type sc \<notin> {''linear'', ''log'', ''symlog'', ''sqrt'', ''utc'', ''time''}"
  shows "binInterval fin epoch sc = None"
  using assms by (simp add: binInterval_def scale_switch_def)

lemma those_None:
  assumes "None \<in> set xs"
  shows "those xs = None"
  using assms by (induction xs) (auto split: option.splits)

lemma getActiveView_unsupported:
  assumes "schema cl = Some sch" "sch_type sch = ''interval''" "scales sch = Some scs"
      and "sc \<in> set scs" "binInterval fin epoch sc = None"
  shows "getActiveView fin epoch cl = Inr None"
proof -
  have "None \<in> set (map (binInterval fin epoch) scs)"
    using assms(4,5) by force
  then have "those (map (binInterval fin epoch) scs) = None"
    by (rule those_None)
  then show ?thesis
    using assms(1-3)
    by (simp add: getActiveView_def Let_def split: option.splits)
qed

lemma getActiveView_source:
  assumes "getActiveView fin epoch cl = Inr (Some v)"
  shows "av_source v = source cl"
  using assms
  by (auto simp add: getActiveView_def Let_def
      split: option.splits if_splits sum.splits prod.splits list.splits)

text \<open>
  Claim C10. For a scale of a supported type whose lifted domain endpoints are equal
  (\<^verbatim>\<open>hi - lo\<close> is 0), \<^verbatim>\<open>binInterval\<close> still returns a bin function: the factor \<^verbatim>\<open>a\<close> is the
  result of a division by zero, so it is \<^verbatim>\<open>Infinity\<close> or \<^verbatim>\<open>NaN\<close>, and every expression the
  bin function builds carries that text as its factor; the active view of a clause with
  this one scale resolves, with such an expression as its column.
\<close>

theorem degenerate_domain_nonfinite_factor:
  assumes sw: "scale_switch fin epoch (s_type sc) = Some (lift, sql)"
      and deg: "js_sub (lift (Math_max (fst (s_domain sc)) (snd (s_domain sc))))
                       (lift (Math_min (fst (s_domain sc)) (snd (s_domain sc)))) = Finite 0"
  shows "\<exists>bin a.
           binInterval fin epoch sc = Some bin
         \<and> a = js_div (Math_abs (js_sub (lift (snd (s_range sc))) (lift (fst (s_range sc)))))
                  (Finite 0)
         \<and> a \<in> {PosInfinity, NotANumber}
         \<and> number_text fin a \<in> {''Infinity'', ''NaN''}
         \<and> (\<forall>v. e_text (bin v) =
                 ''FLOOR('' @ number_text fin a @ ''::DOUBLE * ('' @ sql v @ '' - ''
                 @ number_text fin (lift (Math_min (fst (s_domain sc)) (snd (s_domain sc))))
                 @ ''::DOUBLE))'')
         \<and> (\<forall>cl p cols e.
               schema cl = Some \<lparr>sch_type = ''interval'', scales = Some [sc]\<rparr>
               \<and> predicate cl = Some p \<and> p_columns p = Some cols \<and> p_expr p = Some e \<longrightarrow>
               (\<exists>v. getActiveView fin epoch cl = Inr (Some v)
                    \<and> av_columns v = [(''active0'', bin e)]))"
proof -
  define bin where "bin = binFunction fin (s_domain sc) (s_range sc) lift sql"
  define a where
    "a = js_div (Math_abs (js_sub (lift (snd (s_range sc))) (lift (fst (s_range sc))))) (Finite 0)"
  have b: "binInterval fin epoch sc = Some bin"
    unfolding bin_def using sw by (rule binInterval_Some)
  have nonfinite: "a \<in> {PosInfinity, NotANumber}"
    unfolding a_def by (rule division_by_zero)
  then have rendered: "number_text fin a \<in> {''Infinity'', ''NaN''}"
    by auto
  have expr: "e_text (bin v) =
                 ''FLOOR('' @ number_text fin a @ ''::DOUBLE * ('' @ sql v @ '' - ''
                 @ number_text fin (lift (Math_min (fst (s_domain sc)) (snd (s_domain sc))))
                 @ ''::DOUBLE))''" for v
    unfolding bin_def a_def binFunction_def Let_def deg by simp
  have view: "\<exists>v. getActiveView fin epoch cl = Inr (Some v) \<and> av_columns v = [(''active0'', bin e)]"
    if "schema cl = Some \<lparr>sch_type = ''interval'', scales = Some [sc]\<rparr>"
       "predicate cl = Some p" "p_columns p = Some cols" "p_expr p = Some e" for cl p cols e
    using getActiveView_single [OF that b] by simp
  show ?thesis
    using b nonfinite rendered expr view a_def by blast
qed

theorem degenerate_domain_nonfinite_factor_witness:
  "scale_switch (num_text failing_env) (epoch_ms failing_env) (s_type degenerate_scale)
     = Some (\<lambda>x. x, arg_sql)
   \<and> js_sub (Math_max (fst (s_domain degenerate_scale)) (snd (s_domain degenerate_scale)))
            (Math_min (fst (s_domain degenerate_scale)) (snd (s_domain degenerate_scale))) = Finite 0
   \<and> (\<exists>bin. binInterval (num_text failing_env) (epoch_ms failing_env) degenerate_scale = Some bin
         \<and> e_text (bin date_column)
             = ''FLOOR(Infinity::DOUBLE * ('' @ dq @ ''date'' @ dq @ '' - 5::DOUBLE))''
         \<and> (\<exists>v. getActiveView (num_text failing_env) (epoch_ms failing_env)
                    (interval_clause 300 ''linear'' 5 5) = Inr (Some v)
                \<and> av_columns v = [(''active0'', bin date_column)]))"
proof -
  have sw: "scale_switch (num_text failing_env) (epoch_ms failing_env) (s_type degenerate_scale)
     = Some (\<lambda>x. x, arg_sql)"
    by (simp add: degenerate_scale_def scale_switch_def)
  have cl: "schema (interval_clause 300 ''linear'' 5 5)
              = Some \<lparr>sch_type = ''interval'', scales = Some [degenerate_scale]\<rparr>"
    "predicate (interval_clause 300 ''linear'' 5 5) = Some date_pred"
    "p_columns date_pred = Some [\<lparr>e_text = dq @ ''date'' @ dq, e_columns = Some [''date'']\<rparr>]"
    "p_expr date_pred = Some date_column"
    by (simp_all add: interval_clause_def degenerate_scale_def date_pred_def)
  have deg: "js_sub (Math_max (fst (s_domain degenerate_scale)) (snd (s_domain degenerate_scale)))
            (Math_min (fst (s_domain degenerate_scale)) (snd (s_domain degenerate_scale))) = Finite 0"
    by (simp add: degenerate_scale_def)
  have vals: "js_div (Math_abs (js_sub (snd (s_range degenerate_scale)) (fst (s_range degenerate_scale))))
                 (Finite 0) = PosInfinity"
    "Math_min (fst (s_domain degenerate_scale)) (snd (s_domain degenerate_scale)) = Finite 5"
    "num_text failing_env 5 = ''5''" "arg_sql date_column = dq @ ''date'' @ dq"
    by (simp_all add: degenerate_scale_def failing_env_def date_column_def)
  show ?thesis
    using sw deg cl degenerate_domain_nonfinite_factor [OF sw deg] by (auto simp add: vals)
qed

subsection \<open>The index builder\<close>

lemma analyze_clients_same:
  assumes "map_option cs_id (clients s) = Some (cs_id cs)"
  shows "analyze_clients s cs = (Inr s, [])"
  using assms by (simp add: analyze_clients_def)

lemma analyze_clients_Inr:
  assumes "analyze_clients s cs = (Inr s1, evs)"
  shows "map_option cs_id (clients s1) = Some (cs_id cs)"
    and "map_option cs_id (clients s) \<noteq> Some (cs_id cs) \<Longrightarrow> indices s1 = None \<and> activeView s1 = None"
    and "map_option cs_id (clients s) = Some (cs_id cs) \<Longrightarrow> s1 = s \<and> evs = []"
  using assms
  by (auto simp add: analyze_clients_def split: if_splits prod.splits sum.splits)

lemma analyze_all_events:
  "Exec stmt \<notin> set (snd (analyze_all cs))"
  by (induction cs) (auto split: sum.splits prod.splits)

lemma analyze_clients_events:
  "Exec stmt \<notin> set (snd (analyze_clients s cs))"
  using analyze_all_events [of stmt "members cs"]
  by (auto simp add: analyze_clients_def split: if_splits prod.splits sum.splits)

lemma index_active_True:
  assumes "index_active ev s cs a = (Returned True, s', evs)"
  shows "enabled s' \<and> clients s' = clients s \<and> (\<exists>v. activeView s' = Some v \<and> av_source v \<noteq> None)"
  using assms
  by (auto simp add: index_active_def split: if_splits option.splits sum.splits prod.splits outcome.splits
      dest: getActiveView_source) metis+

lemma index_active_short_circuit:
  assumes "enabled s" "activeView s = Some v"
      and "(case a of Some c \<Rightarrow> Some c | None \<Rightarrow> selection_active ev) = Some cl"
      and "source cl = av_source v" "av_source v \<noteq> None"
  shows "index_active ev s cs a = (Returned True, s, [])"
  using assms by (simp add: index_active_def)

lemma index_active_unresolved:
  assumes none: "getActiveView (num_text ev) (epoch_ms ev) cl = Inr None"
      and run: "index_active ev s cs (Some cl) = (out, s', evs)"
  shows "Exec stmt \<notin> set evs"
    and "indices s' = indices s"
    and "out = Returned True \<longrightarrow> s' = s \<and> (\<exists>v. activeView s = Some v \<and> av_source v = source cl)"
    and "out \<noteq> Returned True \<longrightarrow> out = Returned False"
  using run none
  by (auto simp add: index_active_def split: if_splits option.splits)

lemma index_active_no_view:
  assumes "index_active ev s cs a = (out, s', evs)" "indices s = None" "activeView s' = None"
  shows "indices s' = None"
  using assms
  by (auto simp add: index_active_def split: if_splits option.splits sum.splits prod.splits)

lemma build_indices_other_keys:
  assumes "build_indices ev a v m cs = (out, m', evs)" "k \<notin> cid ` set cs"
  shows "m' k = m k"
  using assms
proof (induction cs arbitrary: m out m' evs)
  case Nil
  then show ?case by simp
next
  case (Cons c cs)
  from Cons.prems show ?case
    by (auto simp add: Let_def split: if_splits sum.splits prod.splits dest!: Cons.IH)
qed

lemma build_indices_exec:
  assumes "build_indices ev a v m cs = (out, m', evs)" "distinct (map cid cs)" "Exec stmt \<in> set evs"
  shows "\<exists>c\<in>set cs. \<exists>e sql. m' (cid c) = Some e
           \<and> stmt = ''CREATE TEMP TABLE IF NOT EXISTS '' @ table e @ '' AS '' @ sql
           \<and> (exec_fails ev stmt \<longrightarrow> LogError \<in> set evs)"
  using assms
proof (induction cs arbitrary: m out m' evs)
  case Nil
  then show ?case by simp
next
  case (Cons c cs)
  show ?case
  proof (cases "cross ev \<and> skipClient ev c a")
    case True
    then have "build_indices ev a v m cs = (out, m', evs)"
      using Cons.prems(1) by simp
    from Cons.IH [OF this] Cons.prems(2,3) show ?thesis by auto
  next
    case False
    show ?thesis
    proof (cases "getIndexColumns c")
      case (Inl e)
      with False Cons.prems show ?thesis by auto
    next
      case (Inr ic)
      show ?thesis
      proof (cases "ic = Null")
        case True
        with False Inr Cons.prems show ?thesis by auto
      next
        case notnull: False
        show ?thesis
        proof (cases "build_query ev c a (av_columns v) (columns_count ic)")
          case (Inl e)
          with False Inr notnull Cons.prems show ?thesis
            by auto
        next
          case sql: (Inr sql)
          define tbl where "tbl = ''tile_index_'' @ uint32_hex (fnv_hash ev sql)"
          define m1 where "m1 = m(cid c \<mapsto> \<lparr>table = tbl, entry_columns = ic\<rparr>)"
          obtain out1 m2 evs1 where rest: "build_indices ev a v m1 cs = (out1, m2, evs1)"
            by (cases "build_indices ev a v m1 cs") auto
          have res: "out = out1" "m' = m2" "evs = Analyze (cid c) # createIndex ev tbl sql @ evs1"
            using False Inr notnull sql rest Cons.prems(1) unfolding tbl_def m1_def
            by (auto simp add: Let_def)
          have keep: "m2 (cid c) = Some \<lparr>table = tbl, entry_columns = ic\<rparr>"
            using build_indices_other_keys [OF rest, of "cid c"] Cons.prems(2)
            by (simp add: m1_def)
          from Cons.prems(3) res(3)
          consider (here) "Exec stmt \<in> set (createIndex ev tbl sql)" | (later) "Exec stmt \<in> set evs1"
            by auto
          then show ?thesis
          proof cases
            case here
            then have stmt: "stmt = ''CREATE TEMP TABLE IF NOT EXISTS '' @ tbl @ '' AS '' @ sql"
              by (auto simp add: createIndex_def Let_def split: if_splits)
            then have "exec_fails ev stmt \<longrightarrow> LogError \<in> set evs"
              using res(3) by (simp add: createIndex_def Let_def)
            with stmt keep res(2) show ?thesis by auto
          next
            case later
            from Cons.IH [OF rest _ later] Cons.prems(2)
            obtain c' e sql' where "c' \<in> set cs" "m2 (cid c') = Some e"
              "stmt = ''CREATE TEMP TABLE IF NOT EXISTS '' @ table e @ '' AS '' @ sql'"
              "exec_fails ev stmt \<longrightarrow> LogError \<in> set evs1"
              by auto
            then show ?thesis
              using res by auto
          qed
        qed
      qed
    qed
  qed
qed

lemma build_indices_exec_indep:
  "fst (build_indices (ev\<lparr>exec_fails := f\<rparr>) a v m cs) = fst (build_indices ev a v m cs)
   \<and> fst (snd (build_indices (ev\<lparr>exec_fails := f\<rparr>) a v m cs)) = fst (snd (build_indices ev a v m cs))"
proof (induction cs arbitrary: m)
  case Nil
  then show ?case by simp
next
  case (Cons c cs)
  show ?case
    using Cons.IH
    by (simp add: Let_def split: sum.splits prod.splits) (metis fst_conv snd_conv)
qed


lemma index_active_exec:
  assumes "index_active ev s cs a = (out, s', evs)" "Exec stmt \<in> set evs"
  shows "\<exists>active view outb m evsb.
    build_indices ev active view Map.empty (members cs) = (outb, m, evsb)
    \<and> indices s' = Some m \<and> Exec stmt \<in> set evsb \<and> set evsb \<subseteq> set evs"
  using assms
  by (auto simp add: index_active_def split: if_splits option.splits sum.splits prod.splits)
    blast+

lemma index_active_exec_indep:
  "fst (index_active (ev\<lparr>exec_fails := f\<rparr>) s cs a) = fst (index_active ev s cs a)
   \<and> fst (snd (index_active (ev\<lparr>exec_fails := f\<rparr>) s cs a)) = fst (snd (index_active ev s cs a))"
proof -
  define ev' where "ev' = ev\<lparr>exec_fails := f\<rparr>"
  have same: "selection_active ev' = selection_active ev" "num_text ev' = num_text ev"
    "epoch_ms ev' = epoch_ms ev"
    by (simp_all add: ev'_def)
  have "fst (index_active ev' s cs a) = fst (index_active ev s cs a)
   \<and> fst (snd (index_active ev' s cs a)) = fst (snd (index_active ev s cs a))"
  proof (cases "enabled s")
    case False
    then show ?thesis by (simp add: index_active_def)
  next
    case en: True
    show ?thesis
    proof (cases "case a of Some c \<Rightarrow> Some c | None \<Rightarrow> selection_active ev")
      case None
      with en show ?thesis unfolding index_active_def same by auto
    next
      case (Some active)
      show ?thesis
      proof (cases "source active = None
          \<or> source active = (case activeView s of None \<Rightarrow> None | Some v \<Rightarrow> av_source v)")
        case True
        with en Some show ?thesis unfolding index_active_def same by auto
      next
        case False
        show ?thesis
        proof (cases "getActiveView (num_text ev) (epoch_ms ev) active")
          case (Inl e)
          with en Some False show ?thesis unfolding index_active_def same by auto
        next
          case (Inr r)
          show ?thesis
          proof (cases r)
            case None
            with en Some False Inr show ?thesis unfolding index_active_def same by auto
          next
            case view: (Some view)
            obtain o1 m1 e1 where b1:
              "build_indices ev' active view Map.empty (members cs) = (o1, m1, e1)"
              by (cases "build_indices ev' active view Map.empty (members cs)") auto
            obtain o2 m2 e2 where b2:
              "build_indices ev active view Map.empty (members cs) = (o2, m2, e2)"
              by (cases "build_indices ev active view Map.empty (members cs)") auto
            have "o1 = o2" "m1 = m2"
              using build_indices_exec_indep [where ev = ev and f = f and a = active and v = view
                  and m = Map.empty and cs = "members cs"] b1 b2 by (simp_all add: ev'_def)
            with en Some False Inr view b1 b2 show ?thesis
              unfolding index_active_def same by auto
          qed
        qed
      qed
    qed
  qed
  then show ?thesis by (simp add: ev'_def)
qed

lemma index_exec_indep:
  "fst (index (ev\<lparr>exec_fails := f\<rparr>) s cs a) = fst (index ev s cs a)
   \<and> fst (snd (index (ev\<lparr>exec_fails := f\<rparr>) s cs a)) = fst (snd (index ev s cs a))"
proof (cases "analyze_clients s cs")
  case (Pair r evs0)
  show ?thesis
  proof (cases r)
    case (Inl e)
    with Pair show ?thesis by (simp add: index_def)
  next
    case (Inr s1)
    with Pair index_active_exec_indep [where ev = ev and f = f and s = s1 and cs = cs and a = a]
    show ?thesis
      by (cases "index_active (ev\<lparr>exec_fails := f\<rparr>) s1 cs a"; cases "index_active ev s1 cs a")
         (simp add: index_def)
  qed
qed

subsection \<open>Two runs of the indexer\<close>

lemma shapes:
  "getIndexColumns client_sum = Inr (Columns [(''total'', sum_expr ''total'')] [''category''] [] (Table ''sales''))"
  "getIndexColumns client_count = Inr (Columns [(''n'', sum_expr ''n'')] [''category''] [] (Table ''sales''))"
  "getIndexColumns client_avg = Inr (Columns [(''mean'', avg_expr ''mean'' ''_count_'')] [''category'']
      [(''_count_'', ''COUNT(*)'')] (Table ''sales''))"
  by (simp_all add: client_sum_def client_count_def client_avg_def example_defs getIndexColumns_def case_defs Let_def)

lemma cids: "cid client_sum = 1" "cid client_count = 2" "cid client_avg = 3"
  by (simp_all add: client_sum_def client_count_def client_avg_def)

lemma analyze_three: "analyze_all (members three_clients) =
   (Inr [Columns [(''total'', sum_expr ''total'')] [''category''] [] (Table ''sales''),
         Columns [(''n'', sum_expr ''n'')] [''category''] [] (Table ''sales''),
         Columns [(''mean'', avg_expr ''mean'' ''_count_'')] [''category''] [(''_count_'', ''COUNT(*)'')] (Table ''sales'')],
    [Analyze 1, Analyze 2, Analyze 3])"
  by (simp add: three_clients_def shapes cids)

lemma compatible_three: "compatible
     [Columns [(''total'', sum_expr ''total'')] [''category''] [] (Table ''sales''),
         Columns [(''n'', sum_expr ''n'')] [''category''] [] (Table ''sales''),
         Columns [(''mean'', avg_expr ''mean'' ''_count_'')] [''category''] [(''_count_'', ''COUNT(*)'')] (Table ''sales'')]"
  by (simp add: compatible_def strict_neq_def)

lemma resolve_linear:
  "getActiveView (num_text failing_env) (epoch_ms failing_env) (interval_clause 100 ''linear'' 0 100) =
   Inr (Some linear_view)"
  by (simp add: getActiveView_def interval_clause_def date_pred_def binInterval_def scale_switch_def
      linear_bin_def linear_view_def Let_def)

lemma hashes:
  "uint32_hex (fnv_hash failing_env ''Q2'') = ''ffffffce''"
  "uint32_hex (fnv_hash failing_env ''Q3'') = ''ffffffcd''"
  by (simp_all add: failing_env_def uint32_hex_def digit_char_def)

lemma build_three:
  "build_indices failing_env (interval_clause 100 ''linear'' 0 100) linear_view Map.empty
     (members three_clients) =
   (Returned (), first_indices,
    [Analyze 2, Exec create_count, LogError, Analyze 3, Exec create_avg, LogError])"
proof -
  have q: "build_query failing_env c cl cols cnt = Inr (''Q'' @ index_text (cid c))" for c cl cols cnt
    by (simp add: failing_env_def)
  have t: "index_text 2 = ''2''" "index_text 3 = ''3''"
    by (simp_all add: index_text_def digit_char_def)
  have e: "cross failing_env" "skipClient failing_env c cl = (cid c = 1)" "exec_fails failing_env stmt" for c cl stmt
    by (simp_all add: failing_env_def)
  show ?thesis
    by (simp add: three_clients_def shapes cids q t e hashes createIndex_def Let_def
        count_entry_def avg_entry_def create_count_def create_avg_def first_indices_def)
qed

lemma first_run:
  "index failing_env reset three_clients (Some (interval_clause 100 ''linear'' 0 100)) =
   (Returned True, indexed_state, first_events)"
proof -
  have a: "analyze_clients reset three_clients =
     (Inr \<lparr>enabled = True, clients = Some three_clients, indices = None, activeView = None\<rparr>,
      [Analyze 1, Analyze 2, Analyze 3])"
    by (simp add: analyze_clients_def reset_def analyze_three compatible_three)
  have src: "source (interval_clause 100 ''linear'' 0 100) = Some 100"
    by (simp add: interval_clause_def)
  have b: "index_active failing_env
       \<lparr>enabled = True, clients = Some three_clients, indices = None, activeView = None\<rparr>
       three_clients (Some (interval_clause 100 ''linear'' 0 100)) =
     (Returned True, indexed_state,
      [Resolve, Warn ''DATA TILE INDEX CONSTRUCTION'',
       Analyze 2, Exec create_count, LogError, Analyze 3, Exec create_avg, LogError])"
    by (simp add: index_active_def src resolve_linear build_three indexed_state_def)
  show ?thesis
    by (simp add: index_def a b first_events_def)
qed

lemma unsupported_pow:
  "getActiveView (num_text failing_env) (epoch_ms failing_env) (interval_clause src ''pow'' 0 100) = Inr None"
  by (simp add: getActiveView_def interval_clause_def date_pred_def binInterval_def scale_switch_def Let_def)

lemma same_clients: "analyze_clients indexed_state three_clients = (Inr indexed_state, [])"
  by (simp add: analyze_clients_def indexed_state_def)

lemma second_run_same_source:
  "index failing_env indexed_state three_clients (Some (interval_clause 100 ''pow'' 0 100)) =
   (Returned True, indexed_state, [])"
  by (simp add: index_def same_clients index_active_def)
     (simp add: indexed_state_def interval_clause_def linear_view_def)

lemma second_run_other_source:
  "index failing_env indexed_state three_clients (Some (interval_clause 200 ''pow'' 0 100)) =
   (Returned False, indexed_state\<lparr>activeView := None\<rparr>, [Resolve])"
  by (simp add: index_def same_clients index_active_def unsupported_pow)
     (simp add: indexed_state_def interval_clause_def linear_view_def)

lemma fresh_run_pow:
  "index failing_env reset three_clients (Some (interval_clause 200 ''pow'' 0 100)) =
   (Returned False, \<lparr>enabled = True, clients = Some three_clients, indices = None, activeView = None\<rparr>,
    [Analyze 1, Analyze 2, Analyze 3, Resolve])"
proof -
  have a: "analyze_clients reset three_clients =
     (Inr \<lparr>enabled = True, clients = Some three_clients, indices = None, activeView = None\<rparr>,
      [Analyze 1, Analyze 2, Analyze 3])"
    by (simp add: analyze_clients_def reset_def analyze_three compatible_three)
  show ?thesis
    by (simp add: index_def a index_active_def unsupported_pow) (simp add: interval_clause_def)
qed

lemma updates:
  "updateClient failing_env indexed_state client_count (Some EmptyArray) =
     (Returned (), [UpdateClient 2 \<lparr>fu_table = ''tile_index_ffffffce'', fu_dims = Some [''category''],
        fu_aggr = Some [(''n'', sum_expr ''n'')], fu_filter = Some EmptyArray\<rparr>])"
  "updateClient failing_env (indexed_state\<lparr>activeView := None\<rparr>) client_sum None = (Returned (), [])"
  "updateClient failing_env (indexed_state\<lparr>activeView := None\<rparr>) client_count None = (Threw TypeError, [])"
  "update failing_env (indexed_state\<lparr>activeView := None\<rparr>) = (Threw TypeError, [])"
  "update failing_env reset = (Threw TypeError, [])"
  "updateClient failing_env reset client_sum None = (Threw TypeError, [])"
  by (simp_all add: updateClient_def update_def derive_filter_def indexed_state_def cids
      count_entry_def reset_def first_indices_def)



lemma failed_run:
  "index failing_env indexed_state three_clients (Some (interval_clause 200 ''pow'' 0 100)) =
   (Returned False, failed_state, [Resolve])"
  using second_run_other_source by (simp add: failed_state_def)

lemma failed_state_facts:
  "activeView failed_state = None"
  "indices failed_state = Some first_indices"
  by (simp_all add: failed_state_def indexed_state_def)

subsection \<open>Repeated calls of the index builder\<close>

text \<open>
  Claim C5. After a call \<^verbatim>\<open>index(clients, clause)\<close> that returned true, a call with a
  collection of the same identity and a clause whose source is the source of the resolved
  active view returns true, leaves the indexer as it is and does nothing else: no client is
  analysed, no view is resolved and no statement is submitted.
\<close>

theorem index_idempotent:
  assumes first: "index ev s cs a = (Returned True, s1, evs)"
      and same_clients: "cs_id cs' = cs_id cs"
      and clause: "(case a' of Some c \<Rightarrow> Some c | None \<Rightarrow> selection_active ev') = Some cl"
      and same_source: "\<exists>v. activeView s1 = Some v \<and> source cl = av_source v"
  shows "index ev' s1 cs' a' = (Returned True, s1, [])"
proof -
  obtain s0 evs0 evs1 where a: "analyze_clients s cs = (Inr s0, evs0)"
    and b: "index_active ev s0 cs a = (Returned True, s1, evs1)"
    using first by (auto simp add: index_def split: prod.splits sum.splits)
  from index_active_True [OF b] obtain v where
    en: "enabled s1" and cl: "clients s1 = clients s0" and v: "activeView s1 = Some v" "av_source v \<noteq> None"
    by blast
  have "map_option cs_id (clients s1) = Some (cs_id cs')"
    using analyze_clients_Inr(1) [OF a] cl same_clients by simp
  then have "analyze_clients s1 cs' = (Inr s1, [])"
    by (rule analyze_clients_same)
  moreover have "index_active ev' s1 cs' a' = (Returned True, s1, [])"
    using same_source v by (intro index_active_short_circuit [OF en v(1) clause]) auto
  ultimately show ?thesis
    by (simp add: index_def)
qed


theorem index_idempotent_witness:
  "index failing_env reset three_clients (Some (interval_clause 100 ''linear'' 0 100))
     = (Returned True, indexed_state, first_events)
   \<and> activeView indexed_state = Some linear_view
   \<and> source (interval_clause 100 ''linear'' 0 100) = av_source linear_view
   \<and> index failing_env indexed_state three_clients (Some (interval_clause 100 ''linear'' 0 100))
       = (Returned True, indexed_state, [])"
proof -
  have cl: "(case Some (interval_clause 100 ''linear'' 0 100) of Some c \<Rightarrow> Some c
             | None \<Rightarrow> selection_active failing_env) = Some (interval_clause 100 ''linear'' 0 100)"
    by simp
  have v: "activeView indexed_state = Some linear_view"
    by (simp add: indexed_state_def)
  have src: "source (interval_clause 100 ''linear'' 0 100) = av_source linear_view"
    by (simp add: interval_clause_def linear_view_def)
  have same: "\<exists>v. activeView indexed_state = Some v
                 \<and> source (interval_clause 100 ''linear'' 0 100) = av_source v"
    using v src by simp
  show ?thesis
    using first_run v src index_idempotent [OF first_run refl cl same] by simp
qed

subsection \<open>Unsupported scale types\<close>

text \<open>
  Claim C6, as the code has it. For an interval clause one of whose scales has a type
  without a case in \<^verbatim>\<open>binInterval\<close>, the bin function of that scale is \<^verbatim>\<open>null\<close> and
  \<^verbatim>\<open>getActiveView\<close> returns \<^verbatim>\<open>null\<close>. A call of \<^verbatim>\<open>index\<close> with such a clause submits no
  statement and records no index entry. It returns true only when the indexer already
  holds an active view of the clause's source, in which case it returns before resolving
  anything and leaves the indexer as it is; otherwise it returns false, or the analysis
  of a new collection throws and the indexer is left as it was.
\<close>

theorem unsupported_scale_fails_closed:
  assumes "schema cl = Some sch" and "sch_type sch = ''interval''" and "scales sch = Some scs"
      and "sc \<in> set scs"
      and "s_type sc \<notin> {''linear'', ''log'', ''symlog'', ''sqrt'', ''utc'', ''time''}"
  shows "binInterval (num_text ev) (epoch_ms ev) sc = None
       \<and> getActiveView (num_text ev) (epoch_ms ev) cl = Inr None
       \<and> (\<forall>s cs out s' evs. index ev s cs (Some cl) = (out, s', evs) \<longrightarrow>
             (\<forall>stmt. Exec stmt \<notin> set evs)
           \<and> (indices s' = indices s \<or> indices s' = None)
           \<and> (out = Returned True \<longrightarrow>
                 s' = s \<and> (\<exists>v. activeView s = Some v \<and> av_source v = source cl))
           \<and> (out \<noteq> Returned True \<longrightarrow> out = Returned False \<or> (out = Threw TypeError \<and> s' = s)))"
proof -
  have bin: "binInterval (num_text ev) (epoch_ms ev) sc = None"
    using assms(5) by (rule binInterval_unsupported)
  have view: "getActiveView (num_text ev) (epoch_ms ev) cl = Inr None"
    using assms(1-4) bin by (rule getActiveView_unsupported)
  have idx: "(\<forall>stmt. Exec stmt \<notin> set evs)
           \<and> (indices s' = indices s \<or> indices s' = None)
           \<and> (out = Returned True \<longrightarrow>
                 s' = s \<and> (\<exists>v. activeView s = Some v \<and> av_source v = source cl))
           \<and> (out \<noteq> Returned True \<longrightarrow> out = Returned False \<or> (out = Threw TypeError \<and> s' = s))"
    if run: "index ev s cs (Some cl) = (out, s', evs)" for s cs out s' evs
  proof (cases "analyze_clients s cs")
    case (Pair r evs0)
    show ?thesis
    proof (cases r)
      case (Inl e)
      with Pair run have "out = Threw e" "s' = s" "evs = evs0"
        by (simp_all add: index_def)
      moreover have "Exec stmt \<notin> set evs0" for stmt
        using analyze_clients_events [of stmt s cs] Pair by simp
      moreover have "e = TypeError" by (cases e) simp
      ultimately show ?thesis by simp
    next
      case (Inr s1)
      obtain evs1 where act: "index_active ev s1 cs (Some cl) = (out, s', evs1)"
        and evs: "evs = evs0 @ evs1"
        using Pair Inr run by (auto simp add: index_def split: prod.splits)
      note u = index_active_unresolved [OF view act]
      have ex: "Exec stmt \<notin> set evs" for stmt
        using analyze_clients_events [of stmt s cs] Pair u(1) evs by simp
      have a: "analyze_clients s cs = (Inr s1, evs0)"
        using Pair Inr by simp
      show ?thesis
      proof (cases "map_option cs_id (clients s) = Some (cs_id cs)")
        case True
        then have "s1 = s"
          using analyze_clients_Inr(3) [OF a] by simp
        then show ?thesis
          using ex u by auto
      next
        case False
        then have "indices s1 = None \<and> activeView s1 = None"
          using analyze_clients_Inr(2) [OF a] by simp
        then show ?thesis
          using ex u by auto
      qed
    qed
  qed
  show ?thesis
    using bin view idx by blast
qed


theorem unsupported_scale_fails_closed_witness:
  "schema (interval_clause 200 ''pow'' 0 100)
     = Some \<lparr>sch_type = ''interval'',
             scales = Some [\<lparr>s_type = ''pow'', s_domain = (Finite 0, Finite 100),
                             s_range = (Finite 0, Finite 10)\<rparr>]\<rparr>
   \<and> ''pow'' \<notin> {''linear'', ''log'', ''symlog'', ''sqrt'', ''utc'', ''time''}
   \<and> getActiveView (num_text failing_env) (epoch_ms failing_env) (interval_clause 200 ''pow'' 0 100)
       = Inr None
   \<and> index failing_env reset three_clients (Some (interval_clause 200 ''pow'' 0 100))
       = (Returned False,
          \<lparr>enabled = True, clients = Some three_clients, indices = None, activeView = None\<rparr>,
          [Analyze 1, Analyze 2, Analyze 3, Resolve])"
proof -
  let ?sc = "\<lparr>s_type = ''pow'', s_domain = (Finite 0, Finite 100), s_range = (Finite 0, Finite 10)\<rparr>"
  let ?sch = "\<lparr>sch_type = ''interval'', scales = Some [?sc]\<rparr>"
  have h1: "schema (interval_clause 200 ''pow'' 0 100) = Some ?sch"
    by (simp add: interval_clause_def)
  have h2: "sch_type ?sch = ''interval''" and h3: "scales ?sch = Some [?sc]" and h4: "?sc \<in> set [?sc]"
    by simp_all
  have h5: "s_type ?sc \<notin> {''linear'', ''log'', ''symlog'', ''sqrt'', ''utc'', ''time''}"
    by simp
  show ?thesis
    using h1 h5 fresh_run_pow unsupported_scale_fails_closed [OF h1 h2 h3 h4 h5, of failing_env]
    by simp
qed

text \<open>
  The claim as stated fails: after the first call has resolved a view for source 100, a
  call with a clause of the same source whose scale type is \<^verbatim>\<open>pow\<close> returns true.
\<close>

theorem unsupported_scale_same_source_returns_true:
  "binInterval (num_text failing_env) (epoch_ms failing_env)
     \<lparr>s_type = ''pow'', s_domain = (Finite 0, Finite 100), s_range = (Finite 0, Finite 10)\<rparr> = None
   \<and> index failing_env reset three_clients (Some (interval_clause 100 ''linear'' 0 100))
       = (Returned True, indexed_state, first_events)
   \<and> index failing_env indexed_state three_clients (Some (interval_clause 100 ''pow'' 0 100))
       = (Returned True, indexed_state, [])"
  using first_run second_run_same_source by (simp add: binInterval_def scale_switch_def)

subsection \<open>Updates without an active view\<close>

text \<open>
  Claim C9, as the code has it. Without an active view \<^verbatim>\<open>update()\<close> fails with a
  TypeError (its promise is rejected). \<^verbatim>\<open>updateClient(client, undefined)\<close> fails with a
  TypeError when there is no index map, which is the case after construction and after a
  change of the client collection, and when there is no active view but an entry for the
  client; when the index map has no entry for the client it returns without doing
  anything, also when there is no active view.
\<close>

theorem update_without_active_view:
  "(activeView s = None \<longrightarrow> update ev s = (Threw TypeError, []))
   \<and> (indices s = None \<longrightarrow> updateClient ev s c flt = (Threw TypeError, []))
   \<and> (\<forall>m e. activeView s = None \<and> indices s = Some m \<and> m (cid c) = Some e \<longrightarrow>
          updateClient ev s c None = (Threw TypeError, []))
   \<and> (\<forall>m. indices s = Some m \<and> m (cid c) = None \<longrightarrow> updateClient ev s c flt = (Returned (), []))
   \<and> activeView reset = None \<and> indices reset = None
   \<and> (\<forall>cs a out s' evs.
          map_option cs_id (clients s) \<noteq> Some (cs_id cs) \<and> index ev s cs a = (out, s', evs)
          \<and> s' \<noteq> s \<and> activeView s' = None \<longrightarrow> indices s' = None)"
proof -
  have changed: "indices s' = None"
    if ch: "map_option cs_id (clients s) \<noteq> Some (cs_id cs)" and run: "index ev s cs a = (out, s', evs)"
       and ne: "s' \<noteq> s" and nv: "activeView s' = None" for cs a out s' evs
  proof (cases "analyze_clients s cs")
    case (Pair r evs0)
    show ?thesis
    proof (cases r)
      case (Inl e)
      with Pair run ne show ?thesis by (simp add: index_def)
    next
      case (Inr s1)
      then have a: "analyze_clients s cs = (Inr s1, evs0)" using Pair by simp
      obtain evs1 where act: "index_active ev s1 cs a = (out, s', evs1)"
        using a run by (auto simp add: index_def split: prod.splits)
      have "indices s1 = None"
        using analyze_clients_Inr(2) [OF a] ch by simp
      then show ?thesis
        using index_active_no_view [OF act] nv by simp
    qed
  qed
  show ?thesis
    using changed
    by (auto simp add: update_def updateClient_def derive_filter_def reset_def)
qed

theorem update_without_active_view_witness:
  "update failing_env reset = (Threw TypeError, [])
   \<and> updateClient failing_env reset client_sum None = (Threw TypeError, [])
   \<and> activeView failed_state = None
   \<and> indices failed_state = Some first_indices
   \<and> first_indices (cid client_count) = Some count_entry
   \<and> first_indices (cid client_sum) = None
   \<and> update failing_env failed_state = (Threw TypeError, [])
   \<and> updateClient failing_env failed_state client_count None = (Threw TypeError, [])
   \<and> updateClient failing_env failed_state client_sum None = (Returned (), [])"
  using failed_state_facts
    update_without_active_view [of reset failing_env client_sum None]
    update_without_active_view [of failed_state failing_env client_count None]
    update_without_active_view [of failed_state failing_env client_sum None]
  by (simp add: cids first_indices_def)

text \<open>
  The claim as stated fails: the second call below fails to resolve a view and leaves the
  index map of the first call, which has no entry for client 1 (skipped as the client of
  the active clause); \<^verbatim>\<open>updateClient\<close> for that client then returns without an
  exception.
\<close>

theorem update_client_without_entry_is_silent:
  "index failing_env reset three_clients (Some (interval_clause 100 ''linear'' 0 100))
     = (Returned True, indexed_state, first_events)
   \<and> index failing_env indexed_state three_clients (Some (interval_clause 200 ''pow'' 0 100))
       = (Returned False, failed_state, [Resolve])
   \<and> activeView failed_state = None
   \<and> indices failed_state = Some first_indices
   \<and> first_indices (cid client_sum) = None
   \<and> updateClient failing_env failed_state client_sum None = (Returned (), [])"
  using first_run failed_run failed_state_facts updates(2)
  by (simp add: failed_state_def first_indices_def cids)

subsection \<open>Failed table creation\<close>

text \<open>
  Claim C1, as the code has it. When a statement submitted by \<^verbatim>\<open>index\<close> fails at the
  executor, the error is logged and nothing else changes: the result of \<^verbatim>\<open>index\<close> and the
  indexer it leaves are those of a run in which no statement fails. The entry of the
  client, recorded before the statement is submitted, is in the index map (the clients
  being distinct objects), and \<^verbatim>\<open>updateClient\<close> for that client with a filter hands the
  client the follow-up query over the entry's table.
\<close>

theorem failed_creation_keeps_entry:
  assumes run: "index ev s cs a = (out, s', evs)"
      and sub: "Exec stmt \<in> set evs" and fails: "exec_fails ev stmt"
      and dist: "distinct (map cid (members cs))"
  shows "LogError \<in> set evs
       \<and> (\<exists>c\<in>set (members cs). \<exists>m e sql.
             indices s' = Some m \<and> m (cid c) = Some e
           \<and> stmt = ''CREATE TEMP TABLE IF NOT EXISTS '' @ table e @ '' AS '' @ sql
           \<and> (\<forall>ev' f. updateClient ev' s' c (Some f) =
                 (Returned (),
                  [UpdateClient (cid c)
                     \<lparr>fu_table = table e, fu_dims = columns_dims (entry_columns e),
                      fu_aggr = columns_aggr (entry_columns e), fu_filter = Some f\<rparr>])))
       \<and> fst (index (ev\<lparr>exec_fails := (\<lambda>_. False)\<rparr>) s cs a) = out
       \<and> fst (snd (index (ev\<lparr>exec_fails := (\<lambda>_. False)\<rparr>) s cs a)) = s'"
proof -
  obtain r evs0 where an: "analyze_clients s cs = (r, evs0)"
    by (cases "analyze_clients s cs") auto
  have noexec: "Exec stmt \<notin> set evs0"
    using analyze_clients_events [of stmt s cs] an by simp
  obtain s1 evs1 where act: "index_active ev s1 cs a = (out, s', evs1)" and evs: "evs = evs0 @ evs1"
    using run an sub noexec by (cases r) (auto simp add: index_def split: prod.splits)
  have sub1: "Exec stmt \<in> set evs1"
    using sub noexec evs by simp
  from index_active_exec [OF act sub1] obtain active view outb m evsb where
    b: "build_indices ev active view Map.empty (members cs) = (outb, m, evsb)"
    and m: "indices s' = Some m" and sub2: "Exec stmt \<in> set evsb" and incl: "set evsb \<subseteq> set evs1"
    by blast
  from build_indices_exec [OF b dist sub2] obtain c e sql where
    c: "c \<in> set (members cs)" "m (cid c) = Some e"
       "stmt = ''CREATE TEMP TABLE IF NOT EXISTS '' @ table e @ '' AS '' @ sql"
       "exec_fails ev stmt \<longrightarrow> LogError \<in> set evsb"
    by blast
  have logged: "LogError \<in> set evs"
    using c(4) fails incl evs by auto
  have upd: "updateClient ev' s' c (Some f) =
                 (Returned (),
                  [UpdateClient (cid c)
                     \<lparr>fu_table = table e, fu_dims = columns_dims (entry_columns e),
                      fu_aggr = columns_aggr (entry_columns e), fu_filter = Some f\<rparr>])" for ev' f
    using m c(2) by (simp add: updateClient_def)
  have indep: "fst (index (ev\<lparr>exec_fails := (\<lambda>_. False)\<rparr>) s cs a) = out"
    "fst (snd (index (ev\<lparr>exec_fails := (\<lambda>_. False)\<rparr>) s cs a)) = s'"
    using index_exec_indep [where ev = ev and f = "\<lambda>_. False" and s = s and cs = cs and a = a] run
    by simp_all
  show ?thesis
    using logged c(1-3) m upd indep by blast
qed

theorem failed_creation_keeps_entry_witness:
  "index failing_env reset three_clients (Some (interval_clause 100 ''linear'' 0 100))
     = (Returned True, indexed_state, first_events)
   \<and> Exec create_count \<in> set first_events
   \<and> exec_fails failing_env create_count
   \<and> distinct (map cid (members three_clients))
   \<and> LogError \<in> set first_events
   \<and> fst (index (failing_env\<lparr>exec_fails := (\<lambda>_. False)\<rparr>) reset three_clients
             (Some (interval_clause 100 ''linear'' 0 100))) = Returned True
   \<and> fst (snd (index (failing_env\<lparr>exec_fails := (\<lambda>_. False)\<rparr>) reset three_clients
                  (Some (interval_clause 100 ''linear'' 0 100)))) = indexed_state"
proof -
  have sub: "Exec create_count \<in> set first_events"
    by (simp add: first_events_def)
  have fails: "exec_fails failing_env create_count"
    by (simp add: failing_env_def)
  have dist: "distinct (map cid (members three_clients))"
    by (simp add: three_clients_def cids)
  show ?thesis
    using first_run sub fails dist failed_creation_keeps_entry [OF first_run sub fails dist]
    by simp
qed

text \<open>
  The claim as stated fails: the statement for client 2 fails at the executor, the entry
  of client 2 is in the index map all the same, and \<^verbatim>\<open>updateClient\<close> for client 2 hands
  it a query over the table that was not created.
\<close>

theorem failed_creation_entry_recorded:
  "index failing_env reset three_clients (Some (interval_clause 100 ''linear'' 0 100))
     = (Returned True, indexed_state, first_events)
   \<and> Exec create_count \<in> set first_events
   \<and> exec_fails failing_env create_count
   \<and> indices indexed_state = Some first_indices
   \<and> first_indices (cid client_count) = Some count_entry
   \<and> create_count = ''CREATE TEMP TABLE IF NOT EXISTS '' @ table count_entry @ '' AS Q2''
   \<and> updateClient failing_env indexed_state client_count (Some EmptyArray)
       = (Returned (),
          [UpdateClient 2
             \<lparr>fu_table = ''tile_index_ffffffce'', fu_dims = Some [''category''],
              fu_aggr = Some [(''n'', sum_expr ''n'')], fu_filter = Some EmptyArray\<rparr>])"
  using first_run updates(1)
  by (simp add: first_events_def failing_env_def indexed_state_def create_count_def count_entry_def
      first_indices_def cids)

end
